theory Spec2Isabelle
  imports Complex_Main
begin

section \<open>The avatar crop dialog (AvatarCropDialog.tsx)\<close>

text \<open>
  The dialog shows an image through a square frame of side \<open>CROP_SIZE\<close>, lets the user zoom
  and pan it, and on "Apply crop" draws the part of the image under the frame onto a canvas
  of side \<open>OUTPUT_SIZE\<close>.

  A JavaScript \<open>number\<close> is a finite real here. The arithmetic of the source is given in
  two readings. In the first, \<open>+\<close>, \<open>-\<close>, \<open>*\<close> and \<open>/\<close> are exact; it is used for the
  statements that do not depend on how a result is rounded: comparisons, \<open>min\<close> and
  \<open>max\<close>, the order of the handlers, equations between two copies of one expression. In
  the second (the definitions named \<open>_f64\<close>) every operation rounds its exact result to
  the nearest binary64 number, as the code does; it is used where a statement compares a
  computed value with an exact bound. A division by a divisor that may be zero gives
  \<open>None\<close> for the results that are not finite numbers. The natural dimensions of an image
  are naturals, as \<open>naturalWidth\<close> and \<open>naturalHeight\<close> are.
\<close>

subsection \<open>Constants and data\<close>

definition CROP_SIZE :: real where
  "CROP_SIZE = 240"

definition OUTPUT_SIZE :: real where
  "OUTPUT_SIZE = 256"

text \<open>The type \<open>{ x: number; y: number }\<close> of the \<open>offset\<close> prop.\<close>

record point =
  x :: real
  y :: real

text \<open>The state \<open>imageSize\<close>: \<open>{ width, height }\<close>, both 0 until the image has loaded.\<close>

record dims =
  width :: nat
  height :: nat

text \<open>
  The content of the ref \<open>dragState\<close>: the fields \<open>x\<close>, \<open>y\<close> (here \<open>drag_x\<close>, \<open>drag_y\<close>: the
  pointer position at the press), \<open>offsetX\<close> and \<open>offsetY\<close> (the offset at the press).
\<close>

record snapshot =
  drag_x :: real
  drag_y :: real
  offsetX :: real
  offsetY :: real

text \<open>What the handlers read of a \<open>PointerEvent\<close>.\<close>

record pointerEvent =
  pointerType :: string
  button :: int
  clientX :: real
  clientY :: real
  pointerId :: nat

text \<open>
  The component between two handler runs. \<open>isOpen\<close>, \<open>scale\<close> and \<open>offset\<close> are the props
  \<open>open\<close>, \<open>scale\<close> and \<open>offset\<close>, held by the parent; \<open>isDragging\<close> and \<open>imageSize\<close> are
  the two \<open>useState\<close> cells; \<open>dragState\<close> and \<open>imageRef\<close> are the two refs (\<open>None\<close> is
  \<open>null\<close>; of the image element only its natural dimensions are read); \<open>capture\<close> is
  the pointer the frame element has captured, if any.
\<close>

record dialog =
  isOpen :: bool
  scale :: real
  offset :: point
  isDragging :: bool
  imageSize :: dims
  dragState :: "snapshot option"
  imageRef :: "dims option"
  capture :: "nat option"

text \<open>
  Modelled from the spec: the parent component, which holds the props \<open>scale\<close> and
  \<open>offset\<close> and passes the callback \<open>onOffsetChange\<close>, is not part of the source. The
  specification has the offset as externally held state to which a clamped candidate is
  written, so a call \<open>onOffsetChange(v)\<close> is the update of the prop \<open>offset\<close> to \<open>v\<close>.
\<close>

definition onOffsetChange :: "point \<Rightarrow> dialog \<Rightarrow> dialog" where
  "onOffsetChange v st = st \<lparr> offset := v \<rparr>"

subsection \<open>The viewport transform\<close>

text \<open>
  The body of the memo \<open>baseScale\<close>, with the side of the frame as an argument; the
  component computes it at \<open>CROP_SIZE\<close>. \<open>!imageSize.width\<close> holds exactly when the width
  is 0.
\<close>

definition baseScale_at :: "real \<Rightarrow> dims \<Rightarrow> real" where
  "baseScale_at frameSize sz =
     (if width sz = 0 \<or> height sz = 0 then 1
      else max (frameSize / real (width sz)) (frameSize / real (height sz)))"

definition baseScale :: "dims \<Rightarrow> real" where
  "baseScale sz = baseScale_at CROP_SIZE sz"

definition clampOffset :: "dims \<Rightarrow> point \<Rightarrow> real \<Rightarrow> point" where
  "clampOffset sz nextOffset nextScale =
     (if width sz = 0 \<or> height sz = 0 then nextOffset
      else
        let displayScale = baseScale sz * nextScale;
            displayWidth = real (width sz) * displayScale;
            displayHeight = real (height sz) * displayScale;
            maxX = max 0 ((displayWidth - CROP_SIZE) / 2);
            maxY = max 0 ((displayHeight - CROP_SIZE) / 2)
        in \<lparr> x = min maxX (max (- maxX) (x nextOffset)),
             y = min maxY (max (- maxY) (y nextOffset)) \<rparr>)"

text \<open>The effect that clamps the offset prop again after every change of its inputs.\<close>

definition reclampEffect :: "dialog \<Rightarrow> dialog" where
  "reclampEffect st =
     (let clamped = clampOffset (imageSize st) (offset st) (scale st)
      in if x clamped = x (offset st) \<and> y clamped = y (offset st) then st
         else onOffsetChange clamped st)"

text \<open>The effect on \<open>open\<close>.\<close>

definition openEffect :: "dialog \<Rightarrow> dialog" where
  "openEffect st =
     (if \<not> isOpen st then st \<lparr> imageSize := \<lparr> width = 0, height = 0 \<rparr> \<rparr> else st)"

text \<open>
  The parent changes the prop \<open>open\<close>: the component renders again, without the image
  element when it is closed (the ref \<open>imageRef\<close> becomes \<open>null\<close>), and the effect on
  \<open>open\<close> runs; the clamping effect runs after it, since \<open>imageSize\<close> is one of its
  inputs.
\<close>

definition setOpen :: "bool \<Rightarrow> dialog \<Rightarrow> dialog" where
  "setOpen b st =
     reclampEffect (openEffect
       (st \<lparr> isOpen := b, imageRef := (if b then imageRef st else None) \<rparr>))"

text \<open>
  The open dialog renders an image element for \<open>imageSrc\<close> and the ref \<open>imageRef\<close> is
  set to it; \<open>img\<close> is what \<open>naturalWidth\<close> and \<open>naturalHeight\<close> of the element are
  when the handlers read them.
\<close>

definition imageMounted :: "dims \<Rightarrow> dialog \<Rightarrow> dialog" where
  "imageMounted img st = st \<lparr> imageRef := Some img \<rparr>"

subsection \<open>The pointer handlers\<close>

definition handlePointerDown :: "dialog \<Rightarrow> pointerEvent \<Rightarrow> dialog" where
  "handlePointerDown st event =
     (if pointerType event = ''mouse'' \<and> button event \<noteq> 0 then st
      else st \<lparr> capture := Some (pointerId event),
                dragState := Some \<lparr> drag_x = clientX event, drag_y = clientY event,
                                    offsetX = x (offset st), offsetY = y (offset st) \<rparr>,
                isDragging := True \<rparr>)"

definition handlePointerMove :: "dialog \<Rightarrow> pointerEvent \<Rightarrow> dialog" where
  "handlePointerMove st event =
     (case dragState st of
        None \<Rightarrow> st
      | Some d \<Rightarrow>
          let deltaX = clientX event - drag_x d;
              deltaY = clientY event - drag_y d;
              nextOffset = clampOffset (imageSize st)
                 \<lparr> x = offsetX d + deltaX, y = offsetY d + deltaY \<rparr> (scale st)
          in onOffsetChange nextOffset st)"

definition handlePointerUp :: "dialog \<Rightarrow> pointerEvent \<Rightarrow> dialog" where
  "handlePointerUp st event =
     (case dragState st of
        None \<Rightarrow> st
      | Some d \<Rightarrow>
          st \<lparr> capture := (if capture st = Some (pointerId event) then None else capture st),
               dragState := None,
               isDragging := False \<rparr>)"

definition handleImageLoad :: "dialog \<Rightarrow> dialog" where
  "handleImageLoad st =
     (case imageRef st of
        None \<Rightarrow> st
      | Some img \<Rightarrow> st \<lparr> imageSize := \<lparr> width = width img, height = height img \<rparr> \<rparr>)"

text \<open>
  The image on the screen. The frame is the square from 0 to \<open>CROP_SIZE\<close> on both axes of
  its own coordinates. The style of the image element centres the image in the frame, moves
  it by the offset and scales it about its centre, so that its left and top edges are the
  \<open>imageLeft\<close> and \<open>imageTop\<close> that \<open>handleApply\<close> computes, and its sides are
  \<open>displayWidth\<close> and \<open>displayHeight\<close>. The image covers the frame when no edge of the
  image lies inside the frame.
\<close>

definition covers :: "dims \<Rightarrow> real \<Rightarrow> point \<Rightarrow> bool" where
  "covers sz s off =
     (let displayScale = baseScale sz * s;
          displayWidth = real (width sz) * displayScale;
          displayHeight = real (height sz) * displayScale;
          imageLeft = CROP_SIZE / 2 - displayWidth / 2 + x off;
          imageTop = CROP_SIZE / 2 - displayHeight / 2 + y off
      in imageLeft \<le> 0 \<and> CROP_SIZE \<le> imageLeft + displayWidth
         \<and> imageTop \<le> 0 \<and> CROP_SIZE \<le> imageTop + displayHeight)"

subsection \<open>The export\<close>

text \<open>
  The quotient \<open>a / b\<close> of the source where the divisor may be zero: \<open>None\<close> stands for
  the results that are not finite numbers (\<open>Infinity\<close>, \<open>-Infinity\<close>, \<open>NaN\<close>), which a
  zero divisor gives.
\<close>

definition js_div :: "real \<Rightarrow> real \<Rightarrow> real option" where
  "js_div a b = (if b = 0 then None else Some (a / b))"

text \<open>The arguments of a call of \<open>drawImage\<close>.\<close>

record drawCall =
  image :: dims
  sx :: "real option"
  sy :: "real option"
  sWidth :: "real option"
  sHeight :: "real option"
  dx :: real
  dy :: real
  dWidth :: real
  dHeight :: real

text \<open>A value thrown by a call into the browser: a \<open>DOMException\<close>, with its name.\<close>

datatype thrown = DOMException string

text \<open>
  What the browser answers. \<open>context2d\<close> tells whether \<open>getContext('2d')\<close> returns a
  context. \<open>drawImage\<close> tells whether the call of \<open>drawImage\<close> with these arguments throws
  (\<open>Some e\<close>; for an image element whose image could not be decoded the browser throws an
  \<open>InvalidStateError\<close>) or returns (\<open>None\<close>). \<open>toBlob\<close> tells whether \<open>canvas.toBlob\<close>
  throws (\<open>Inl e\<close>; a \<open>SecurityError\<close> for a canvas an image of another origin was drawn on)
  or passes a blob or \<open>null\<close> (\<open>None\<close>) to its callback (\<open>Inr\<close>).
\<close>

record 'b backend =
  context2d :: bool
  drawImage :: "drawCall \<Rightarrow> thrown option"
  toBlob :: "drawCall \<Rightarrow> thrown + 'b option"

text \<open>
  What a run of \<open>handleApply\<close> does: its calls of \<open>drawImage\<close>, its calls of the sink
  \<open>onApply\<close>, and how the promise it returns settles: \<open>rejected\<close> is \<open>None\<close> when the
  promise is fulfilled and \<open>Some e\<close> when it is rejected with \<open>e\<close>. The function is
  \<open>async\<close> and has no \<open>try\<close>: what a call in its body throws ends the run and rejects the
  promise.
\<close>

record 'b outcome =
  drawn :: "drawCall list"
  applied :: "'b list"
  rejected :: "thrown option"

definition handleApply :: "'b backend \<Rightarrow> dialog \<Rightarrow> 'b outcome" where
  "handleApply env st =
     (case imageRef st of
        None \<Rightarrow> \<lparr> drawn = [], applied = [], rejected = None \<rparr>
      | Some img \<Rightarrow>
          if \<not> context2d env then \<lparr> drawn = [], applied = [], rejected = None \<rparr>
          else
            let displayScale = baseScale (imageSize st) * scale st;
                displayWidth = real (width (imageSize st)) * displayScale;
                displayHeight = real (height (imageSize st)) * displayScale;
                imageLeft = CROP_SIZE / 2 - displayWidth / 2 + x (offset st);
                imageTop = CROP_SIZE / 2 - displayHeight / 2 + y (offset st);
                sourceX = js_div (0 - imageLeft) displayScale;
                sourceY = js_div (0 - imageTop) displayScale;
                sourceSize = js_div CROP_SIZE displayScale;
                call = \<lparr> image = img, sx = sourceX, sy = sourceY,
                         sWidth = sourceSize, sHeight = sourceSize,
                         dx = 0, dy = 0, dWidth = OUTPUT_SIZE, dHeight = OUTPUT_SIZE \<rparr>
            in (case drawImage env call of
                  Some e \<Rightarrow> \<lparr> drawn = [call], applied = [], rejected = Some e \<rparr>
                | None \<Rightarrow>
                    (case toBlob env call of
                       Inl e \<Rightarrow> \<lparr> drawn = [call], applied = [], rejected = Some e \<rparr>
                     | Inr None \<Rightarrow> \<lparr> drawn = [call], applied = [], rejected = None \<rparr>
                     | Inr (Some blob) \<Rightarrow>
                         \<lparr> drawn = [call], applied = [blob], rejected = None \<rparr>)))"

text \<open>
  A browser in which \<open>drawImage\<close> throws, as it does for an image that could not be
  decoded, and the dialog showing such an image: the element is there, no \<open>load\<close> event
  has come, the natural dimensions are 0.
\<close>

definition brokenImageBackend :: "nat backend" where
  "brokenImageBackend =
     \<lparr> context2d = True,
       drawImage = (\<lambda>call. Some (DOMException ''InvalidStateError'')),
       toBlob = (\<lambda>call. Inr (Some 7)) \<rparr>"

definition brokenImageDialog :: dialog where
  "brokenImageDialog =
     \<lparr> isOpen = True, scale = 1, offset = \<lparr> x = 0, y = 0 \<rparr>, isDragging = False,
       imageSize = \<lparr> width = 0, height = 0 \<rparr>, dragState = None,
       imageRef = Some \<lparr> width = 0, height = 0 \<rparr>, capture = None \<rparr>"

text \<open>
  The source rectangle as the specification derives it, for a frame of side \<open>frameSize\<close>
  whose origin is 0 and whose centre is \<open>frameSize / 2\<close> on both axes: the origin on each
  axis and the side.
\<close>

definition spec_sourceRect ::
  "real \<Rightarrow> dims \<Rightarrow> real \<Rightarrow> real \<Rightarrow> point \<Rightarrow> real option \<times> real option \<times> real option" where
  "spec_sourceRect frameSize native base s off =
     (let displayScale = base * s;
          displaySizeX = real (width native) * displayScale;
          displaySizeY = real (height native) * displayScale;
          frameCenter = frameSize / 2;
          frameOrigin = 0;
          imageOriginX = frameCenter - displaySizeX / 2 + x off;
          imageOriginY = frameCenter - displaySizeY / 2 + y off
      in (js_div (frameOrigin - imageOriginX) displayScale,
          js_div (frameOrigin - imageOriginY) displayScale,
          js_div frameSize displayScale))"

subsection \<open>The arithmetic of the code in binary64\<close>

text \<open>
  Rounding to the nearest integer, ties to the even one, and rounding to the nearest number
  with a significand of 53 bits, ties to the even significand: for \<open>v\<close> between
  \<open>2 ^ e * 2 ^ 52\<close> and \<open>2 ^ e * 2 ^ 53\<close> in absolute value the multiples of \<open>2 ^ e\<close> are
  the binary64 numbers near \<open>v\<close>. The exponent has no bound here: \<open>fl\<close> is the rounding
  of the code wherever the result is neither above the largest binary64 number nor below
  the normal ones, which holds of every value below for image sides under \<open>2 ^ 32\<close>, a
  scale between 1 and 3 and the frame side \<open>CROP_SIZE\<close> (and, where the frame side is an
  argument, for frame sides whose quotients by the image sides are in that range).
\<close>

definition rne :: "real \<Rightarrow> int" where
  "rne m =
     (let f = \<lfloor>m\<rfloor>; r = m - real_of_int f
      in if r < 1 / 2 then f
         else if 1 / 2 < r then f + 1
         else if even f then f else f + 1)"

definition fl :: "real \<Rightarrow> real" where
  "fl v =
     (if v = 0 then 0
      else
        let e = \<lfloor>log 2 \<bar>v\<bar>\<rfloor> - 52;
            p = 2 powr real_of_int e
        in real_of_int (rne (v / p)) * p)"

text \<open>
  \<open>baseScale\<close>, \<open>clampOffset\<close> and the arithmetic of \<open>handleApply\<close> (the lines from
  \<open>displayScale\<close> to \<open>sourceSize\<close>) with every operation rounded. \<open>Math.max\<close>,
  \<open>Math.min\<close> and the negation \<open>-maxX\<close> do not round; the sides of the image are integers
  below \<open>2 ^ 53\<close> and turn into numbers as they are.
\<close>

definition baseScale_f64_at :: "real \<Rightarrow> dims \<Rightarrow> real" where
  "baseScale_f64_at frameSize sz =
     (if width sz = 0 \<or> height sz = 0 then 1
      else max (fl (frameSize / real (width sz))) (fl (frameSize / real (height sz))))"

definition baseScale_f64 :: "dims \<Rightarrow> real" where
  "baseScale_f64 sz = baseScale_f64_at CROP_SIZE sz"

definition clampOffset_f64 :: "dims \<Rightarrow> point \<Rightarrow> real \<Rightarrow> point" where
  "clampOffset_f64 sz nextOffset nextScale =
     (if width sz = 0 \<or> height sz = 0 then nextOffset
      else
        let displayScale = fl (baseScale_f64 sz * nextScale);
            displayWidth = fl (real (width sz) * displayScale);
            displayHeight = fl (real (height sz) * displayScale);
            maxX = max 0 (fl (fl (displayWidth - CROP_SIZE) / 2));
            maxY = max 0 (fl (fl (displayHeight - CROP_SIZE) / 2))
        in \<lparr> x = min maxX (max (- maxX) (x nextOffset)),
             y = min maxY (max (- maxY) (y nextOffset)) \<rparr>)"

text \<open>
  The image on the screen in this reading: the edges \<open>imageLeft\<close> and \<open>imageTop\<close> as
  \<open>handleApply\<close> computes them, and the image covering the frame up to a gap of \<open>tol\<close>
  times the displayed side at each edge. \<open>covers_f64 0\<close> is covering with no gap.
\<close>

definition covers_f64 :: "real \<Rightarrow> dims \<Rightarrow> real \<Rightarrow> point \<Rightarrow> bool" where
  "covers_f64 tol sz s off =
     (let displayScale = fl (baseScale_f64 sz * s);
          displayWidth = fl (real (width sz) * displayScale);
          displayHeight = fl (real (height sz) * displayScale);
          imageLeft = fl (fl (fl (CROP_SIZE / 2) - fl (displayWidth / 2)) + x off);
          imageTop = fl (fl (fl (CROP_SIZE / 2) - fl (displayHeight / 2)) + y off)
      in imageLeft \<le> tol * displayWidth
         \<and> CROP_SIZE - tol * displayWidth \<le> imageLeft + displayWidth
         \<and> imageTop \<le> tol * displayHeight
         \<and> CROP_SIZE - tol * displayHeight \<le> imageTop + displayHeight)"

text \<open>The source rectangle that \<open>handleApply\<close> passes to \<open>drawImage\<close>, in this reading.\<close>

definition js_div_f64 :: "real \<Rightarrow> real \<Rightarrow> real option" where
  "js_div_f64 a b = (if b = 0 then None else Some (fl (a / b)))"

definition sourceRect_f64 ::
  "dims \<Rightarrow> real \<Rightarrow> point \<Rightarrow> real option \<times> real option \<times> real option" where
  "sourceRect_f64 sz s off =
     (let displayScale = fl (baseScale_f64 sz * s);
          displayWidth = fl (real (width sz) * displayScale);
          displayHeight = fl (real (height sz) * displayScale);
          imageLeft = fl (fl (fl (CROP_SIZE / 2) - fl (displayWidth / 2)) + x off);
          imageTop = fl (fl (fl (CROP_SIZE / 2) - fl (displayHeight / 2)) + y off);
          sourceX = js_div_f64 (fl (0 - imageLeft)) displayScale;
          sourceY = js_div_f64 (fl (0 - imageTop)) displayScale;
          sourceSize = js_div_f64 CROP_SIZE displayScale
      in (sourceX, sourceY, sourceSize))"

subsection \<open>Facts about the transform\<close>

lemma clamp_fixed:
  fixes m v :: real
  assumes "0 \<le> m"
  shows "min m (max (- m) (min m (max (- m) v))) = min m (max (- m) v)"
  using assms by (simp add: min_def max_def)

text \<open>
  C4. Clamping is idempotent: clamping a clamped offset again, at the same scale and with
  the same image size (known or not), gives the clamped offset.
\<close>

theorem clampOffset_idempotent:
  "clampOffset sz (clampOffset sz off s) s = clampOffset sz off s"
  by (simp add: clampOffset_def Let_def clamp_fixed)

theorem clampOffset_idempotent_witness:
  "clampOffset \<lparr> width = 240, height = 480 \<rparr>
     (clampOffset \<lparr> width = 240, height = 480 \<rparr> \<lparr> x = 50, y = 300 \<rparr> 1) 1 = \<lparr> x = 0, y = 120 \<rparr>"
proof -
  have b: "baseScale \<lparr> width = 240, height = 480 \<rparr> = 1"
    by (simp add: baseScale_def baseScale_at_def CROP_SIZE_def)
  have c: "clampOffset \<lparr> width = 240, height = 480 \<rparr> \<lparr> x = 50, y = 300 \<rparr> 1 = \<lparr> x = 0, y = 120 \<rparr>"
    by (simp add: clampOffset_def b CROP_SIZE_def Let_def)
  show ?thesis
    using clampOffset_idempotent [of "\<lparr> width = 240, height = 480 \<rparr>" "\<lparr> x = 50, y = 300 \<rparr>" 1]
    by (simp only: c)
qed

text \<open>
  C10. While a native dimension is unknown (0), \<open>clampOffset\<close> returns the offset it is
  given, and the clamping effect leaves the offset prop as the parent set it.
\<close>

theorem clampOffset_unknown_size:
  assumes "width (imageSize st) = 0 \<or> height (imageSize st) = 0"
  shows "clampOffset (imageSize st) off s = off \<and> reclampEffect st = st"
  using assms by (simp add: clampOffset_def reclampEffect_def onOffsetChange_def)

theorem clampOffset_unknown_size_witness:
  "clampOffset \<lparr> width = 0, height = 480 \<rparr> \<lparr> x = 1000, y = - 7 \<rparr> 2 = \<lparr> x = 1000, y = - 7 \<rparr>
   \<and> reclampEffect \<lparr> isOpen = True, scale = 2, offset = \<lparr> x = 1000, y = - 7 \<rparr>,
         isDragging = False, imageSize = \<lparr> width = 0, height = 480 \<rparr>, dragState = None,
         imageRef = None, capture = None \<rparr>
     = \<lparr> isOpen = True, scale = 2, offset = \<lparr> x = 1000, y = - 7 \<rparr>,
         isDragging = False, imageSize = \<lparr> width = 0, height = 480 \<rparr>, dragState = None,
         imageRef = None, capture = None \<rparr>"
  using clampOffset_unknown_size [of "\<lparr> isOpen = True, scale = 2, offset = \<lparr> x = 1000, y = - 7 \<rparr>,
         isDragging = False, imageSize = \<lparr> width = 0, height = 480 \<rparr>, dragState = None,
         imageRef = None, capture = None \<rparr>" "\<lparr> x = 1000, y = - 7 \<rparr>" 2]
  by simp

text \<open>The base scale makes the image at least as large as the frame on both axes.\<close>

lemma baseScale_at_cover:
  assumes "0 < width sz" "0 < height sz"
  shows "F \<le> baseScale_at F sz * real (width sz)" "F \<le> baseScale_at F sz * real (height sz)"
proof -
  have "F / real (width sz) \<le> baseScale_at F sz" "F / real (height sz) \<le> baseScale_at F sz"
    using assms by (simp_all add: baseScale_at_def)
  then show "F \<le> baseScale_at F sz * real (width sz)" "F \<le> baseScale_at F sz * real (height sz)"
    using assms by (simp_all add: pos_divide_le_eq)
qed

lemma display_ge:
  assumes "0 < width sz" "0 < height sz" "1 \<le> s"
  shows "CROP_SIZE \<le> real (width sz) * (baseScale sz * s)"
    "CROP_SIZE \<le> real (height sz) * (baseScale sz * s)"
proof -
  have c: "0 \<le> CROP_SIZE" by (simp add: CROP_SIZE_def)
  have w: "CROP_SIZE \<le> baseScale sz * real (width sz)"
    and h: "CROP_SIZE \<le> baseScale sz * real (height sz)"
    using baseScale_at_cover [OF assms(1,2), of CROP_SIZE] by (simp_all add: baseScale_def)
  have "CROP_SIZE * 1 \<le> (baseScale sz * real (width sz)) * s"
    using c w assms(3) by (intro mult_mono) simp_all
  then show "CROP_SIZE \<le> real (width sz) * (baseScale sz * s)" by (simp add: mult_ac)
  have "CROP_SIZE * 1 \<le> (baseScale sz * real (height sz)) * s"
    using c h assms(3) by (intro mult_mono) simp_all
  then show "CROP_SIZE \<le> real (height sz) * (baseScale sz * s)" by (simp add: mult_ac)
qed

text \<open>
  In exact arithmetic the base scale is \<open>max (F / w) (F / h)\<close> and, multiplied by the
  shorter side, is at least \<open>F\<close>.
\<close>

lemma baseScale_exact:
  "(0 < width sz \<and> 0 < height sz \<longrightarrow>
      baseScale_at F sz = max (F / real (width sz)) (F / real (height sz))
      \<and> F \<le> baseScale_at F sz * real (min (width sz) (height sz)))
   \<and> (width sz = 0 \<or> height sz = 0 \<longrightarrow> baseScale_at F sz = 1)
   \<and> baseScale sz = baseScale_at CROP_SIZE sz"
proof (intro conjI impI)
  assume pos: "0 < width sz \<and> 0 < height sz"
  then show "baseScale_at F sz = max (F / real (width sz)) (F / real (height sz))"
    by (simp add: baseScale_at_def)
  from pos have "F \<le> baseScale_at F sz * real (width sz)"
    and "F \<le> baseScale_at F sz * real (height sz)"
    by (simp_all add: baseScale_at_cover)
  then show "F \<le> baseScale_at F sz * real (min (width sz) (height sz))"
    by (simp add: min_def)
next
  assume "width sz = 0 \<or> height sz = 0"
  then show "baseScale_at F sz = 1" by (simp add: baseScale_at_def)
next
  show "baseScale sz = baseScale_at CROP_SIZE sz" by (simp add: baseScale_def)
qed

text \<open>
  In exact arithmetic, with known positive sides and a scale of at least 1, the clamped
  offset leaves the image covering the frame.
\<close>

lemma clampOffset_covers_exact:
  assumes "0 < width sz" and "0 < height sz" and "1 \<le> s" and "s \<le> 3"
  shows "covers sz s (clampOffset sz off s)"
  using assms display_ge [OF assms(1,2,3)]
  by (simp add: covers_def clampOffset_def Let_def min_def max_def field_simps)

text \<open>
  C2. With known positive native dimensions, for every scale and offset, \<open>clampOffset\<close>
  returns on each axis the offset clamped into \<open>[- max, max]\<close>, where \<open>max\<close> is
  \<open>max 0 ((display - CROP_SIZE) / 2)\<close> and \<open>display\<close> is the native side times
  \<open>baseScale * scale\<close>: the result lies in that interval, an offset already in it is
  returned as it is, and on an axis where \<open>display\<close> equals \<open>CROP_SIZE\<close> the result is 0.
\<close>

theorem clampOffset_range:
  assumes "0 < width sz" and "0 < height sz"
  shows "let displayScale = baseScale sz * s;
             displayWidth = real (width sz) * displayScale;
             displayHeight = real (height sz) * displayScale;
             maxX = max 0 ((displayWidth - CROP_SIZE) / 2);
             maxY = max 0 ((displayHeight - CROP_SIZE) / 2);
             r = clampOffset sz off s
         in x r = min maxX (max (- maxX) (x off)) \<and> y r = min maxY (max (- maxY) (y off))
            \<and> - maxX \<le> x r \<and> x r \<le> maxX \<and> - maxY \<le> y r \<and> y r \<le> maxY
            \<and> (- maxX \<le> x off \<and> x off \<le> maxX \<longrightarrow> x r = x off)
            \<and> (- maxY \<le> y off \<and> y off \<le> maxY \<longrightarrow> y r = y off)
            \<and> (displayWidth = CROP_SIZE \<longrightarrow> x r = 0)
            \<and> (displayHeight = CROP_SIZE \<longrightarrow> y r = 0)"
  using assms
  by (simp add: clampOffset_def Let_def min_def max_def)

theorem clampOffset_range_witness:
  "clampOffset \<lparr> width = 240, height = 480 \<rparr> \<lparr> x = 50, y = 30 \<rparr> 1 = \<lparr> x = 0, y = 30 \<rparr>
   \<and> clampOffset \<lparr> width = 480, height = 240 \<rparr> \<lparr> x = 500, y = - 3 \<rparr> 1 = \<lparr> x = 120, y = 0 \<rparr>"
proof -
  have a: "baseScale \<lparr> width = 240, height = 480 \<rparr> = 1" "baseScale \<lparr> width = 480, height = 240 \<rparr> = 1"
    by (simp_all add: baseScale_def baseScale_at_def CROP_SIZE_def)
  have "x (clampOffset \<lparr> width = 240, height = 480 \<rparr> \<lparr> x = 50, y = 30 \<rparr> 1) = 0
      \<and> y (clampOffset \<lparr> width = 240, height = 480 \<rparr> \<lparr> x = 50, y = 30 \<rparr> 1) = 30"
    using clampOffset_range [of "\<lparr> width = 240, height = 480 \<rparr>" 1 "\<lparr> x = 50, y = 30 \<rparr>"]
    by (simp add: a CROP_SIZE_def Let_def)
  moreover have "x (clampOffset \<lparr> width = 480, height = 240 \<rparr> \<lparr> x = 500, y = - 3 \<rparr> 1) = 120
      \<and> y (clampOffset \<lparr> width = 480, height = 240 \<rparr> \<lparr> x = 500, y = - 3 \<rparr> 1) = 0"
    using clampOffset_range [of "\<lparr> width = 480, height = 240 \<rparr>" 1 "\<lparr> x = 500, y = - 3 \<rparr>"]
    by (simp add: a CROP_SIZE_def Let_def)
  ultimately show ?thesis
    by (simp add: point.equality)
qed

subsection \<open>Facts about the export\<close>

lemma handleApply_no_image:
  "imageRef st = None \<Longrightarrow> handleApply env st = \<lparr> drawn = [], applied = [], rejected = None \<rparr>"
  by (simp add: handleApply_def)

lemma handleApply_no_context:
  "\<not> context2d env \<Longrightarrow> handleApply env st = \<lparr> drawn = [], applied = [], rejected = None \<rparr>"
  by (simp add: handleApply_def split: option.split)

lemma handleApply_run:
  assumes "imageRef st = Some img" and "context2d env"
  shows "\<exists>call. drawn (handleApply env st) = [call] \<and> image call = img
           \<and> (sx call, sy call, sWidth call)
               = spec_sourceRect CROP_SIZE (imageSize st) (baseScale (imageSize st))
                   (scale st) (offset st)
           \<and> sHeight call = sWidth call
           \<and> dx call = 0 \<and> dy call = 0 \<and> dWidth call = OUTPUT_SIZE \<and> dHeight call = OUTPUT_SIZE
           \<and> applied (handleApply env st)
               = (case drawImage env call of
                    Some e \<Rightarrow> []
                  | None \<Rightarrow> (case toBlob env call of
                               Inl e \<Rightarrow> [] | Inr None \<Rightarrow> [] | Inr (Some blob) \<Rightarrow> [blob]))
           \<and> rejected (handleApply env st)
               = (case drawImage env call of
                    Some e \<Rightarrow> Some e
                  | None \<Rightarrow> (case toBlob env call of Inl e \<Rightarrow> Some e | Inr r \<Rightarrow> None))"
proof -
  let ?ds = "baseScale (imageSize st) * scale st"
  define call where "call =
     \<lparr> image = img,
       sx = js_div (0 - (CROP_SIZE / 2 - real (width (imageSize st)) * ?ds / 2 + x (offset st))) ?ds,
       sy = js_div (0 - (CROP_SIZE / 2 - real (height (imageSize st)) * ?ds / 2 + y (offset st))) ?ds,
       sWidth = js_div CROP_SIZE ?ds, sHeight = js_div CROP_SIZE ?ds,
       dx = 0, dy = 0, dWidth = OUTPUT_SIZE, dHeight = OUTPUT_SIZE \<rparr>"
  have run: "handleApply env st =
     (case drawImage env call of
        Some e \<Rightarrow> \<lparr> drawn = [call], applied = [], rejected = Some e \<rparr>
      | None \<Rightarrow>
          (case toBlob env call of
             Inl e \<Rightarrow> \<lparr> drawn = [call], applied = [], rejected = Some e \<rparr>
           | Inr None \<Rightarrow> \<lparr> drawn = [call], applied = [], rejected = None \<rparr>
           | Inr (Some blob) \<Rightarrow> \<lparr> drawn = [call], applied = [blob], rejected = None \<rparr>))"
    unfolding handleApply_def call_def Let_def using assms by simp
  have d: "drawn (handleApply env st) = [call]"
    unfolding run by (simp split: option.split sum.split)
  have a: "applied (handleApply env st)
               = (case drawImage env call of
                    Some e \<Rightarrow> []
                  | None \<Rightarrow> (case toBlob env call of
                               Inl e \<Rightarrow> [] | Inr None \<Rightarrow> [] | Inr (Some blob) \<Rightarrow> [blob]))"
    unfolding run by (simp split: option.split sum.split)
  have r: "rejected (handleApply env st)
               = (case drawImage env call of
                    Some e \<Rightarrow> Some e
                  | None \<Rightarrow> (case toBlob env call of Inl e \<Rightarrow> Some e | Inr r \<Rightarrow> None))"
    unfolding run by (simp split: option.split sum.split)
  have g: "image call = img"
    "(sx call, sy call, sWidth call)
       = spec_sourceRect CROP_SIZE (imageSize st) (baseScale (imageSize st)) (scale st) (offset st)"
    "sHeight call = sWidth call"
    "dx call = 0" "dy call = 0" "dWidth call = OUTPUT_SIZE" "dHeight call = OUTPUT_SIZE"
    by (simp_all add: call_def spec_sourceRect_def Let_def)
  show ?thesis
    by (intro exI [of _ call] conjI d g a r)
qed



lemma clamp_fixed_abs:
  fixes m v :: real
  assumes "0 \<le> m" and "min m (max (- m) v) = v"
  shows "\<bar>v\<bar> \<le> m"
  using assms by (simp add: min_def max_def abs_le_iff split: if_splits)

lemma fixed_point_bounds:
  assumes "0 < width sz" and "0 < height sz" and "clampOffset sz off s = off"
  shows "\<bar>x off\<bar> \<le> max 0 ((real (width sz) * (baseScale sz * s) - CROP_SIZE) / 2)"
    and "\<bar>y off\<bar> \<le> max 0 ((real (height sz) * (baseScale sz * s) - CROP_SIZE) / 2)"
proof -
  let ?mx = "max 0 ((real (width sz) * (baseScale sz * s) - CROP_SIZE) / 2)"
  let ?my = "max 0 ((real (height sz) * (baseScale sz * s) - CROP_SIZE) / 2)"
  have "x (clampOffset sz off s) = x off" "y (clampOffset sz off s) = y off"
    using assms(3) by simp_all
  then have "min ?mx (max (- ?mx) (x off)) = x off" "min ?my (max (- ?my) (y off)) = y off"
    using assms(1,2) by (simp_all add: clampOffset_def Let_def)
  then show "\<bar>x off\<bar> \<le> ?mx" and "\<bar>y off\<bar> \<le> ?my"
    by (simp_all add: clamp_fixed_abs)
qed

lemma rect_in_bounds:
  fixes k w c v :: real
  assumes "0 < k" and "\<bar>v\<bar> \<le> (w * k - c) / 2"
  shows "0 \<le> (0 - (c / 2 - w * k / 2 + v)) / k"
    and "(0 - (c / 2 - w * k / 2 + v)) / k + c / k \<le> w"
proof -
  have "0 \<le> 0 - (c / 2 - w * k / 2 + v)"
    using assms(2) by (simp add: field_simps abs_le_iff)
  then show "0 \<le> (0 - (c / 2 - w * k / 2 + v)) / k"
    using assms(1) by simp
  have "(0 - (c / 2 - w * k / 2 + v)) + c \<le> w * k"
    using assms(2) by (simp add: field_simps abs_le_iff)
  then have "((0 - (c / 2 - w * k / 2 + v)) + c) / k \<le> w"
    using assms(1) by (simp add: pos_divide_le_eq)
  then show "(0 - (c / 2 - w * k / 2 + v)) / k + c / k \<le> w"
    by (simp only: add_divide_distrib)
qed

lemma displayScale_pos:
  assumes "0 < width sz" and "0 < height sz" and "1 \<le> s"
  shows "0 < baseScale sz * s"
proof -
  have "0 < CROP_SIZE / real (width sz)"
    using assms(1) by (simp add: CROP_SIZE_def)
  then have "0 < baseScale sz"
    using assms(1,2) by (simp add: baseScale_def baseScale_at_def max_def)
  then show ?thesis
    using assms(3) by (simp add: zero_less_mult_iff)
qed

text \<open>
  In exact arithmetic, with known positive sides, a scale of at least 1 and an offset that
  \<open>clampOffset\<close> leaves as it is, the source rectangle lies inside the native image.
\<close>

lemma source_rect_in_bounds_exact:
  assumes "0 < width (imageSize st)" and "0 < height (imageSize st)"
    and "1 \<le> scale st" and "scale st \<le> 3"
    and "clampOffset (imageSize st) (offset st) (scale st) = offset st"
    and "imageRef st = Some img" and "context2d env"
  shows "\<exists>call sourceX sourceY sourceSize.
           drawn (handleApply env st) = [call]
           \<and> sx call = Some sourceX \<and> sy call = Some sourceY
           \<and> sWidth call = Some sourceSize \<and> sHeight call = Some sourceSize
           \<and> 0 \<le> sourceX \<and> 0 \<le> sourceY
           \<and> sourceX + sourceSize \<le> real (width (imageSize st))
           \<and> sourceY + sourceSize \<le> real (height (imageSize st))"
proof -
  define k where "k = baseScale (imageSize st) * scale st"
  have k: "0 < k"
    unfolding k_def using assms(1-3) by (rule displayScale_pos)
  have gw: "CROP_SIZE \<le> real (width (imageSize st)) * k"
    and gh: "CROP_SIZE \<le> real (height (imageSize st)) * k"
    unfolding k_def using display_ge [OF assms(1-3)] by simp_all
  have bx: "\<bar>x (offset st)\<bar> \<le> (real (width (imageSize st)) * k - CROP_SIZE) / 2"
    using fixed_point_bounds(1) [OF assms(1,2,5)] gw by (simp add: k_def max_def)
  have "by": "\<bar>y (offset st)\<bar> \<le> (real (height (imageSize st)) * k - CROP_SIZE) / 2"
    using fixed_point_bounds(2) [OF assms(1,2,5)] gh by (simp add: k_def max_def)
  obtain call where c: "drawn (handleApply env st) = [call]"
    "(sx call, sy call, sWidth call)
       = spec_sourceRect CROP_SIZE (imageSize st) (baseScale (imageSize st)) (scale st) (offset st)"
    "sHeight call = sWidth call"
    using handleApply_run [OF assms(6,7)] by blast
  let ?sX = "(0 - (CROP_SIZE / 2 - real (width (imageSize st)) * k / 2 + x (offset st))) / k"
  let ?sY = "(0 - (CROP_SIZE / 2 - real (height (imageSize st)) * k / 2 + y (offset st))) / k"
  have nz: "baseScale (imageSize st) \<noteq> 0" "scale st \<noteq> 0"
    using k by (auto simp add: k_def)
  have "(sx call, sy call, sWidth call) = (Some ?sX, Some ?sY, Some (CROP_SIZE / k))"
    using c(2) nz by (simp add: spec_sourceRect_def js_div_def Let_def k_def)
  then have s: "sx call = Some ?sX" "sy call = Some ?sY" "sWidth call = Some (CROP_SIZE / k)"
    by simp_all
  have "0 \<le> ?sX" "?sX + CROP_SIZE / k \<le> real (width (imageSize st))"
    using rect_in_bounds [OF k bx] by simp_all
  moreover have "0 \<le> ?sY" "?sY + CROP_SIZE / k \<le> real (height (imageSize st))"
    using rect_in_bounds [OF k "by"] by simp_all
  ultimately show ?thesis
    using c(1,3) s by auto
qed

text \<open>
  C7. The export calls the sink \<open>onApply\<close> exactly once, with the blob, when \<open>drawImage\<close>
  and \<open>toBlob\<close> return and \<open>toBlob\<close> passes a blob, and not at all otherwise. When there is
  no image element, when there is no drawing context and when \<open>toBlob\<close> passes \<open>null\<close>,
  the run ends without an error. When \<open>drawImage\<close> or \<open>toBlob\<close> throws, nothing catches
  what is thrown: the sink is not called and the promise of the handler is rejected with it.
\<close>

theorem handleApply_sink:
  fixes env :: "'b backend"
  shows "(imageRef st = None \<or> \<not> context2d env \<longrightarrow>
            handleApply env st = \<lparr> drawn = [], applied = [], rejected = None \<rparr>)
       \<and> (\<forall>img. imageRef st = Some img \<and> context2d env \<longrightarrow>
            (\<exists>call. drawn (handleApply env st) = [call]
               \<and> (\<forall>e. drawImage env call = Some e \<longrightarrow>
                     applied (handleApply env st) = [] \<and> rejected (handleApply env st) = Some e)
               \<and> (\<forall>e. drawImage env call = None \<and> toBlob env call = Inl e \<longrightarrow>
                     applied (handleApply env st) = [] \<and> rejected (handleApply env st) = Some e)
               \<and> (drawImage env call = None \<and> toBlob env call = Inr None \<longrightarrow>
                     applied (handleApply env st) = [] \<and> rejected (handleApply env st) = None)
               \<and> (\<forall>blob. drawImage env call = None \<and> toBlob env call = Inr (Some blob) \<longrightarrow>
                     applied (handleApply env st) = [blob]
                     \<and> rejected (handleApply env st) = None)))"
proof (intro conjI allI impI)
  assume "imageRef st = None \<or> \<not> context2d env"
  then show "handleApply env st = \<lparr> drawn = [], applied = [], rejected = None \<rparr>"
    using handleApply_no_image handleApply_no_context by blast
next
  fix img
  assume "imageRef st = Some img \<and> context2d env"
  then have "imageRef st = Some img" and "context2d env"
    by simp_all
  from handleApply_run [OF this]
  obtain call where d: "drawn (handleApply env st) = [call]"
    and a: "applied (handleApply env st)
              = (case drawImage env call of
                   Some e \<Rightarrow> []
                 | None \<Rightarrow> (case toBlob env call of
                              Inl e \<Rightarrow> [] | Inr None \<Rightarrow> [] | Inr (Some blob) \<Rightarrow> [blob]))"
    and r: "rejected (handleApply env st)
              = (case drawImage env call of
                   Some e \<Rightarrow> Some e
                 | None \<Rightarrow> (case toBlob env call of Inl e \<Rightarrow> Some e | Inr r \<Rightarrow> None))"
    by blast
  have t: "\<forall>e. drawImage env call = Some e \<longrightarrow>
             applied (handleApply env st) = [] \<and> rejected (handleApply env st) = Some e"
    using a r by simp
  have u: "\<forall>e. drawImage env call = None \<and> toBlob env call = Inl e \<longrightarrow>
             applied (handleApply env st) = [] \<and> rejected (handleApply env st) = Some e"
    using a r by simp
  have n: "drawImage env call = None \<and> toBlob env call = Inr None \<longrightarrow>
             applied (handleApply env st) = [] \<and> rejected (handleApply env st) = None"
    using a r by simp
  have b: "\<forall>blob. drawImage env call = None \<and> toBlob env call = Inr (Some blob) \<longrightarrow>
             applied (handleApply env st) = [blob] \<and> rejected (handleApply env st) = None"
    using a r by simp
  show "\<exists>call. drawn (handleApply env st) = [call]
       \<and> (\<forall>e. drawImage env call = Some e \<longrightarrow>
             applied (handleApply env st) = [] \<and> rejected (handleApply env st) = Some e)
       \<and> (\<forall>e. drawImage env call = None \<and> toBlob env call = Inl e \<longrightarrow>
             applied (handleApply env st) = [] \<and> rejected (handleApply env st) = Some e)
       \<and> (drawImage env call = None \<and> toBlob env call = Inr None \<longrightarrow>
             applied (handleApply env st) = [] \<and> rejected (handleApply env st) = None)
       \<and> (\<forall>blob. drawImage env call = None \<and> toBlob env call = Inr (Some blob) \<longrightarrow>
             applied (handleApply env st) = [blob] \<and> rejected (handleApply env st) = None)"
    by (intro exI [of _ call] conjI d t u n b)
qed

theorem handleApply_sink_witness:
  "applied (handleApply \<lparr> context2d = True, drawImage = (\<lambda>c. None),
                          toBlob = (\<lambda>c. Inr (Some (7 :: nat))) \<rparr>
       \<lparr> isOpen = True, scale = 3 / 2, offset = \<lparr> x = 10, y = - 5 \<rparr>,
         isDragging = False, imageSize = \<lparr> width = 1000, height = 600 \<rparr>, dragState = None,
         imageRef = Some \<lparr> width = 1000, height = 600 \<rparr>, capture = None \<rparr>) = [7]
   \<and> applied (handleApply \<lparr> context2d = True, drawImage = (\<lambda>c. None),
                            toBlob = (\<lambda>c. Inr (None :: nat option)) \<rparr>
       \<lparr> isOpen = True, scale = 3 / 2, offset = \<lparr> x = 10, y = - 5 \<rparr>,
         isDragging = False, imageSize = \<lparr> width = 1000, height = 600 \<rparr>, dragState = None,
         imageRef = Some \<lparr> width = 1000, height = 600 \<rparr>, capture = None \<rparr>) = []
   \<and> applied (handleApply \<lparr> context2d = False, drawImage = (\<lambda>c. None),
                            toBlob = (\<lambda>c. Inr (Some (7 :: nat))) \<rparr>
       \<lparr> isOpen = True, scale = 3 / 2, offset = \<lparr> x = 10, y = - 5 \<rparr>,
         isDragging = False, imageSize = \<lparr> width = 1000, height = 600 \<rparr>, dragState = None,
         imageRef = Some \<lparr> width = 1000, height = 600 \<rparr>, capture = None \<rparr>) = []
   \<and> applied (handleApply \<lparr> context2d = True, drawImage = (\<lambda>c. None),
                            toBlob = (\<lambda>c. Inl (DOMException ''SecurityError'')
                                          :: thrown + nat option) \<rparr>
       \<lparr> isOpen = True, scale = 3 / 2, offset = \<lparr> x = 10, y = - 5 \<rparr>,
         isDragging = False, imageSize = \<lparr> width = 1000, height = 600 \<rparr>, dragState = None,
         imageRef = Some \<lparr> width = 1000, height = 600 \<rparr>, capture = None \<rparr>) = []"
proof -
  let ?st = "\<lparr> isOpen = True, scale = 3 / 2, offset = \<lparr> x = 10, y = - 5 \<rparr>,
         isDragging = False, imageSize = \<lparr> width = 1000, height = 600 \<rparr>, dragState = None,
         imageRef = Some \<lparr> width = 1000, height = 600 \<rparr>, capture = None \<rparr>"
  have "applied (handleApply \<lparr> context2d = True, drawImage = (\<lambda>c. None),
                          toBlob = (\<lambda>c. Inr (Some (7 :: nat))) \<rparr> ?st) = [7]"
    using handleApply_sink [of ?st "\<lparr> context2d = True, drawImage = (\<lambda>c. None),
                          toBlob = (\<lambda>c. Inr (Some (7 :: nat))) \<rparr>"]
    by simp
  moreover have "applied (handleApply \<lparr> context2d = True, drawImage = (\<lambda>c. None),
                            toBlob = (\<lambda>c. Inr (None :: nat option)) \<rparr> ?st) = []"
    using handleApply_sink [of ?st "\<lparr> context2d = True, drawImage = (\<lambda>c. None),
                            toBlob = (\<lambda>c. Inr (None :: nat option)) \<rparr>"]
    by simp
  moreover have "applied (handleApply \<lparr> context2d = False, drawImage = (\<lambda>c. None),
                            toBlob = (\<lambda>c. Inr (Some (7 :: nat))) \<rparr> ?st) = []"
    using handleApply_sink [of ?st "\<lparr> context2d = False, drawImage = (\<lambda>c. None),
                            toBlob = (\<lambda>c. Inr (Some (7 :: nat))) \<rparr>"]
    by simp
  moreover have "applied (handleApply \<lparr> context2d = True, drawImage = (\<lambda>c. None),
                            toBlob = (\<lambda>c. Inl (DOMException ''SecurityError'')
                                          :: thrown + nat option) \<rparr> ?st) = []"
    using handleApply_sink [of ?st "\<lparr> context2d = True, drawImage = (\<lambda>c. None),
                            toBlob = (\<lambda>c. Inl (DOMException ''SecurityError'')
                                          :: thrown + nat option) \<rparr>"]
    by simp
  ultimately show ?thesis
    by simp
qed

text \<open>
  A path that ends in an error: where \<open>drawImage\<close> throws, as for an image that could not
  be decoded, the promise of the handler is rejected with what was thrown, and the sink is
  not called.
\<close>

theorem handleApply_raises:
  "rejected (handleApply brokenImageBackend brokenImageDialog)
     = Some (DOMException ''InvalidStateError'')
   \<and> applied (handleApply brokenImageBackend brokenImageDialog) = []"
  by (simp add: handleApply_def brokenImageBackend_def brokenImageDialog_def Let_def)

subsection \<open>Facts about the drag\<close>

lemma reclampEffect_clamped:
  assumes "offset st = clampOffset (imageSize st) off (scale st)"
  shows "reclampEffect st = st"
proof -
  have "clampOffset (imageSize st) (offset st) (scale st) = offset st"
    unfolding assms by (simp add: clampOffset_def Let_def clamp_fixed)
  then show ?thesis
    by (simp add: reclampEffect_def onOffsetChange_def)
qed

lemma handlePointerUp_offset: "offset (handlePointerUp st event) = offset st"
  by (simp add: handlePointerUp_def split: option.split)

lemma handlePointerUp_idle:
  "dragState (handlePointerUp st event) = None \<and> (dragState st \<noteq> None \<longrightarrow> \<not> isDragging (handlePointerUp st event))"
  by (simp add: handlePointerUp_def split: option.split)

text \<open>
  C8. A drag: a press at \<open>P\<close> that starts a drag (any press but one of a mouse button other
  than the primary one, which the handler ignores), a move to \<open>P + D\<close> and a release. The
  press records \<open>P\<close> and the offset \<open>O\<close> and leaves the offset as it is; the move writes
  \<open>clampOffset (O + (position - P))\<close> at the current scale, which the clamping effect of the
  next render leaves as it is; the release discards the record and does not write the
  offset, so the drag ends with the offset \<open>clampOffset (O + D)\<close>.
\<close>

theorem drag_sequence:
  assumes "\<not> (pointerType press = ''mouse'' \<and> button press \<noteq> 0)"
    and "clientX move = clientX press + dX" and "clientY move = clientY press + dY"
  shows "let pressed = handlePointerDown st press;
             moved = handlePointerMove pressed move;
             rendered = reclampEffect moved;
             released = handlePointerUp rendered release
         in dragState pressed = Some \<lparr> drag_x = clientX press, drag_y = clientY press,
                                        offsetX = x (offset st), offsetY = y (offset st) \<rparr>
            \<and> offset pressed = offset st
            \<and> offset moved = clampOffset (imageSize st)
                 \<lparr> x = x (offset st) + (clientX move - clientX press),
                   y = y (offset st) + (clientY move - clientY press) \<rparr> (scale st)
            \<and> rendered = moved
            \<and> dragState released = None \<and> \<not> isDragging released
            \<and> offset released = clampOffset (imageSize st)
                 \<lparr> x = x (offset st) + dX, y = y (offset st) + dY \<rparr> (scale st)"
proof -
  define pressed where "pressed = handlePointerDown st press"
  define moved where "moved = handlePointerMove pressed move"
  have p: "pressed = st \<lparr> capture := Some (pointerId press),
                dragState := Some \<lparr> drag_x = clientX press, drag_y = clientY press,
                                    offsetX = x (offset st), offsetY = y (offset st) \<rparr>,
                isDragging := True \<rparr>"
    unfolding pressed_def handlePointerDown_def by (simp only: assms(1) if_False)
  have m: "moved = pressed \<lparr> offset := clampOffset (imageSize st)
                 \<lparr> x = x (offset st) + (clientX move - clientX press),
                   y = y (offset st) + (clientY move - clientY press) \<rparr> (scale st) \<rparr>"
    by (simp add: moved_def handlePointerMove_def onOffsetChange_def p)
  have r: "reclampEffect moved = moved"
    by (rule reclampEffect_clamped [where off = "\<lparr> x = x (offset st) + (clientX move - clientX press),
                   y = y (offset st) + (clientY move - clientY press) \<rparr>"]) (simp add: m p)
  have d: "dragState moved \<noteq> None"
    by (simp add: m p)
  have u: "dragState (handlePointerUp moved release) = None"
    "\<not> isDragging (handlePointerUp moved release)"
    using handlePointerUp_idle [of moved release] d by simp_all
  have o: "offset (handlePointerUp moved release) = clampOffset (imageSize st)
                 \<lparr> x = x (offset st) + dX, y = y (offset st) + dY \<rparr> (scale st)"
    by (simp add: handlePointerUp_offset m assms(2,3))
  show ?thesis
    unfolding Let_def pressed_def [symmetric] moved_def [symmetric] r
    using u o by (simp add: m p)
qed

theorem drag_sequence_witness:
  "offset (handlePointerUp (reclampEffect (handlePointerMove (handlePointerDown
       \<lparr> isOpen = True, scale = 1, offset = \<lparr> x = 0, y = 0 \<rparr>,
         isDragging = False, imageSize = \<lparr> width = 240, height = 480 \<rparr>, dragState = None,
         imageRef = Some \<lparr> width = 240, height = 480 \<rparr>, capture = None \<rparr>
       \<lparr> pointerType = ''mouse'', button = 0, clientX = 100, clientY = 100, pointerId = 1 \<rparr>)
       \<lparr> pointerType = ''mouse'', button = 0, clientX = 150, clientY = 400, pointerId = 1 \<rparr>))
       \<lparr> pointerType = ''mouse'', button = 0, clientX = 150, clientY = 400, pointerId = 1 \<rparr>)
   = \<lparr> x = 0, y = 120 \<rparr>"
proof -
  let ?st = "\<lparr> isOpen = True, scale = 1, offset = \<lparr> x = 0, y = 0 \<rparr>,
         isDragging = False, imageSize = \<lparr> width = 240, height = 480 \<rparr>, dragState = None,
         imageRef = Some \<lparr> width = 240, height = 480 \<rparr>, capture = None \<rparr>"
  let ?press = "\<lparr> pointerType = ''mouse'', button = 0, clientX = 100, clientY = 100, pointerId = 1 \<rparr>"
  let ?move = "\<lparr> pointerType = ''mouse'', button = 0, clientX = 150, clientY = 400, pointerId = 1 \<rparr>"
  have b: "baseScale \<lparr> width = 240, height = 480 \<rparr> = 1"
    by (simp add: baseScale_def baseScale_at_def CROP_SIZE_def)
  have c: "clampOffset \<lparr> width = 240, height = 480 \<rparr> \<lparr> x = 50, y = 300 \<rparr> 1 = \<lparr> x = 0, y = 120 \<rparr>"
    by (simp add: clampOffset_def b CROP_SIZE_def Let_def)
  have h: "\<not> (pointerType ?press = ''mouse'' \<and> button ?press \<noteq> 0)"
    "clientX ?move = clientX ?press + 50" "clientY ?move = clientY ?press + 300"
    by simp_all
  have "offset (handlePointerUp (reclampEffect (handlePointerMove (handlePointerDown ?st ?press) ?move)) ?move)
        = clampOffset (imageSize ?st) \<lparr> x = x (offset ?st) + 50, y = y (offset ?st) + 300 \<rparr> (scale ?st)"
    using drag_sequence [OF h, of ?st ?move] unfolding Let_def by (elim conjE)
  then show ?thesis
    by (simp add: c)
qed

subsection \<open>Closing the dialog\<close>

lemma setOpen_keeps_drag:
  "dragState (setOpen b st) = dragState st \<and> isDragging (setOpen b st) = isDragging st"
  by (simp add: setOpen_def openEffect_def reclampEffect_def onOffsetChange_def Let_def)

lemma setOpen_close_imageSize:
  "imageSize (setOpen False st) = \<lparr> width = 0, height = 0 \<rparr>"
  by (simp add: setOpen_def openEffect_def reclampEffect_def onOffsetChange_def Let_def)

text \<open>
  C9. Closing the dialog resets the cached image size, but not the drag session: here a press
  starts a drag, the dialog is closed and opened again and the image loads. The record of
  the press is still there and \<open>isDragging\<close> still holds, so that a move of the pointer with
  no press before it pans the image.
\<close>

theorem close_keeps_drag_session:
  "let idle = \<lparr> isOpen = True, scale = 2, offset = \<lparr> x = 0, y = 0 \<rparr>, isDragging = False,
                 imageSize = \<lparr> width = 240, height = 240 \<rparr>, dragState = None,
                 imageRef = Some \<lparr> width = 240, height = 240 \<rparr>, capture = None \<rparr>;
       press = \<lparr> pointerType = ''touch'', button = 0, clientX = 100, clientY = 100,
                  pointerId = 1 \<rparr>;
       move = \<lparr> pointerType = ''mouse'', button = 0, clientX = 150, clientY = 130,
                 pointerId = 2 \<rparr>;
       closed = setOpen False (handlePointerDown idle press);
       reopened = reclampEffect (handleImageLoad
                    (imageMounted \<lparr> width = 240, height = 240 \<rparr> (setOpen True closed)))
   in imageSize closed = \<lparr> width = 0, height = 0 \<rparr>
      \<and> dragState closed
          = Some \<lparr> drag_x = 100, drag_y = 100, offsetX = 0, offsetY = 0 \<rparr>
      \<and> isDragging closed
      \<and> dragState reopened
          = Some \<lparr> drag_x = 100, drag_y = 100, offsetX = 0, offsetY = 0 \<rparr>
      \<and> isDragging reopened
      \<and> offset reopened = \<lparr> x = 0, y = 0 \<rparr>
      \<and> offset (handlePointerMove reopened move) = \<lparr> x = 50, y = 30 \<rparr>"
proof -
  let ?idle = "\<lparr> isOpen = True, scale = 2, offset = \<lparr> x = 0, y = 0 \<rparr>, isDragging = False,
                 imageSize = \<lparr> width = 240, height = 240 \<rparr>, dragState = None,
                 imageRef = Some \<lparr> width = 240, height = 240 \<rparr>, capture = None \<rparr>"
  let ?press = "\<lparr> pointerType = ''touch'', button = 0, clientX = 100, clientY = 100,
                  pointerId = 1 \<rparr>"
  let ?move = "\<lparr> pointerType = ''mouse'', button = 0, clientX = 150, clientY = 130,
                 pointerId = 2 \<rparr>"
  let ?snap = "\<lparr> drag_x = 100, drag_y = 100, offsetX = 0, offsetY = 0 \<rparr>"
  have b: "baseScale \<lparr> width = 240, height = 240 \<rparr> = 1"
    by (simp add: baseScale_def baseScale_at_def CROP_SIZE_def)
  have c0: "clampOffset \<lparr> width = 240, height = 240 \<rparr> \<lparr> x = 0, y = 0 \<rparr> 2 = \<lparr> x = 0, y = 0 \<rparr>"
    by (simp add: clampOffset_def b CROP_SIZE_def Let_def)
  have c1: "clampOffset \<lparr> width = 240, height = 240 \<rparr> \<lparr> x = 50, y = 30 \<rparr> 2 = \<lparr> x = 50, y = 30 \<rparr>"
    by (simp add: clampOffset_def b CROP_SIZE_def Let_def)
  have c2: "clampOffset \<lparr> width = 0, height = 0 \<rparr> \<lparr> x = 0, y = 0 \<rparr> 2 = \<lparr> x = 0, y = 0 \<rparr>"
    by (simp add: clampOffset_def)
  let ?dragging = "\<lparr> isOpen = True, scale = 2, offset = \<lparr> x = 0, y = 0 \<rparr>, isDragging = True,
          imageSize = \<lparr> width = 240, height = 240 \<rparr>, dragState = Some ?snap,
          imageRef = Some \<lparr> width = 240, height = 240 \<rparr>, capture = Some 1 \<rparr>"
  let ?closed = "\<lparr> isOpen = False, scale = 2, offset = \<lparr> x = 0, y = 0 \<rparr>, isDragging = True,
          imageSize = \<lparr> width = 0, height = 0 \<rparr>, dragState = Some ?snap,
          imageRef = None, capture = Some 1 \<rparr>"
  let ?opened = "\<lparr> isOpen = True, scale = 2, offset = \<lparr> x = 0, y = 0 \<rparr>, isDragging = True,
          imageSize = \<lparr> width = 0, height = 0 \<rparr>, dragState = Some ?snap,
          imageRef = None, capture = Some 1 \<rparr>"
  let ?mounted = "\<lparr> isOpen = True, scale = 2, offset = \<lparr> x = 0, y = 0 \<rparr>, isDragging = True,
          imageSize = \<lparr> width = 0, height = 0 \<rparr>, dragState = Some ?snap,
          imageRef = Some \<lparr> width = 240, height = 240 \<rparr>, capture = Some 1 \<rparr>"
  have down: "handlePointerDown ?idle ?press = ?dragging"
    by (simp add: handlePointerDown_def)
  have closed: "setOpen False ?dragging = ?closed"
    by (simp add: setOpen_def openEffect_def reclampEffect_def onOffsetChange_def c2)
  have opened: "setOpen True ?closed = ?opened"
    by (simp add: setOpen_def openEffect_def reclampEffect_def onOffsetChange_def c2)
  have mounted: "imageMounted \<lparr> width = 240, height = 240 \<rparr> ?opened = ?mounted"
    by (simp add: imageMounted_def)
  have loaded: "reclampEffect (handleImageLoad ?mounted) = ?dragging"
    by (simp add: handleImageLoad_def reclampEffect_def onOffsetChange_def c0)
  have moved: "offset (handlePointerMove ?dragging ?move) = \<lparr> x = 50, y = 30 \<rparr>"
    by (simp add: handlePointerMove_def onOffsetChange_def c1)
  show ?thesis
    unfolding Let_def down closed opened mounted loaded moved by simp
qed

subsection \<open>Facts about the rounding\<close>

lemma rne_error: "\<bar>real_of_int (rne m) - m\<bar> \<le> 1 / 2"
proof -
  have "real_of_int \<lfloor>m\<rfloor> \<le> m" "m < real_of_int \<lfloor>m\<rfloor> + 1"
    by linarith+
  then show ?thesis
    by (auto simp add: rne_def Let_def)
qed

lemma fl_error: "\<bar>fl v - v\<bar> \<le> \<bar>v\<bar> / 2 ^ 53"
proof (cases "v = 0")
  case True
  then show ?thesis by (simp add: fl_def)
next
  case False
  define k where "k = \<lfloor>log 2 \<bar>v\<bar>\<rfloor>"
  define p where "p = 2 powr real_of_int (k - 52)"
  have pos: "0 < \<bar>v\<bar>" using False by simp
  have "2 powr real_of_int k \<le> \<bar>v\<bar>"
    using floor_log_eq_powr_iff [of "\<bar>v\<bar>" 2 k] pos by (simp add: k_def)
  moreover have "2 powr real_of_int k = p * 2 ^ 52"
    by (simp add: p_def powr_diff)
  ultimately have lo: "p * 2 ^ 52 \<le> \<bar>v\<bar>" by simp
  have p: "0 < p" by (simp add: p_def)
  have f: "fl v = real_of_int (rne (v / p)) * p"
    using False by (simp add: fl_def Let_def k_def p_def)
  have "fl v - v = (real_of_int (rne (v / p)) - v / p) * p"
    using p by (simp add: f field_simps)
  then have "\<bar>fl v - v\<bar> = \<bar>real_of_int (rne (v / p)) - v / p\<bar> * p"
    using p by (simp add: abs_mult)
  also have "\<dots> \<le> (1 / 2) * p"
    using rne_error [of "v / p"] p by (intro mult_right_mono) simp_all
  also have "\<dots> \<le> \<bar>v\<bar> / 2 ^ 53"
    using lo by simp
  finally show ?thesis .
qed

lemma fl_at:
  assumes "p = 2 powr real_of_int e" and "2 ^ 52 \<le> \<bar>v\<bar> / p" and "\<bar>v\<bar> / p < 2 ^ 53"
  shows "fl v = real_of_int (rne (v / p)) * p"
proof -
  have p: "0 < p" by (simp add: assms(1))
  have nz: "v \<noteq> 0" using assms(2) by auto
  have a: "2 powr real_of_int (e + 52) = p * 2 ^ 52" "2 powr (real_of_int (e + 52) + 1) = p * 2 ^ 53"
    by (simp_all add: assms(1) powr_add)
  have "p * 2 ^ 52 \<le> \<bar>v\<bar>" "\<bar>v\<bar> < p * 2 ^ 53"
    using assms(2,3) p by (simp_all add: field_simps)
  then have "\<lfloor>log 2 \<bar>v\<bar>\<rfloor> = e + 52"
    using floor_log_eq_powr_iff [of "\<bar>v\<bar>" 2 "e + 52"] nz a by simp
  then show ?thesis
    using nz by (simp add: fl_def Let_def assms(1))
qed

lemma pow2_neg: "1 / 2 ^ n = 2 powr real_of_int (- int n)"
  by (simp add: powr_minus powr_realpow inverse_eq_divide)

lemma pow2_pos: "2 ^ n = 2 powr real_of_int (int n)"
  by (simp add: powr_realpow)

lemma rne_int: "rne (real_of_int n) = n"
  by (simp add: rne_def Let_def)

lemma fl_exact:
  assumes "p = 2 powr real_of_int e" and "v = real_of_int n * p"
    and "2 ^ 52 \<le> \<bar>n\<bar>" and "\<bar>n\<bar> < 2 ^ 53"
  shows "fl v = real_of_int n * p"
proof -
  have p: "0 < p" by (simp add: assms(1))
  have q: "v / p = real_of_int n"
    using p by (simp add: assms(2))
  have "real_of_int (2 ^ 52) \<le> real_of_int \<bar>n\<bar>" "real_of_int \<bar>n\<bar> < real_of_int (2 ^ 53)"
    using assms(3,4) by (simp_all only: of_int_le_iff of_int_less_iff)
  then have "2 ^ 52 \<le> \<bar>v\<bar> / p" "\<bar>v\<bar> / p < 2 ^ 53"
    using p q by (simp_all add: abs_mult assms(2))
  from fl_at [OF assms(1) this] show ?thesis
    by (simp add: q rne_int)
qed

lemma fl_lower: "v - \<bar>v\<bar> / 2 ^ 53 \<le> fl v"
  using fl_error [of v] by linarith

lemma fl_upper: "fl v \<le> v + \<bar>v\<bar> / 2 ^ 53"
  using fl_error [of v] by linarith

lemma fl_within:
  assumes "\<bar>v\<bar> \<le> B"
  shows "v - B / 2 ^ 53 \<le> fl v" and "fl v \<le> v + B / 2 ^ 53"
    and "\<bar>fl v\<bar> \<le> B + B / 2 ^ 53"
proof -
  have "\<bar>v\<bar> / 2 ^ 53 \<le> B / 2 ^ 53"
    using assms by (simp add: divide_right_mono)
  then show "v - B / 2 ^ 53 \<le> fl v" and "fl v \<le> v + B / 2 ^ 53"
    and "\<bar>fl v\<bar> \<le> B + B / 2 ^ 53"
    using fl_lower [of v] fl_upper [of v] assms by linarith+
qed

lemma fl_nonneg: "0 \<le> v \<Longrightarrow> 0 \<le> fl v"
  using fl_lower [of v] by (simp add: field_simps)

lemma fl_nonpos: "v \<le> 0 \<Longrightarrow> fl v \<le> 0"
  using fl_upper [of v] by (simp add: field_simps)

lemma fl_pos: "0 < v \<Longrightarrow> 0 < fl v"
  using fl_lower [of v] by (simp add: field_simps)

lemma fl_neg: "v < 0 \<Longrightarrow> fl v < 0"
  using fl_upper [of v] by (simp add: field_simps)

lemma fl_ge_scaled: "0 \<le> v \<Longrightarrow> v * (1 - 1 / 2 ^ 53) \<le> fl v"
  using fl_lower [of v] by (simp add: algebra_simps)

lemma fl_le_scaled: "0 \<le> v \<Longrightarrow> fl v \<le> v * (1 + 1 / 2 ^ 53)"
  using fl_upper [of v] by (simp add: algebra_simps)

lemma fl_120: "fl 120 = 120"
proof -
  have "fl 120 = real_of_int (rne (120 / (1 / 2 ^ 46))) * (1 / 2 ^ 46)"
    by (rule fl_at [OF pow2_neg [of 46]]) simp_all
  also have "rne (120 / (1 / 2 ^ 46)) = 120 * 2 ^ 46"
    by (simp add: rne_def Let_def)
  finally show ?thesis by simp
qed

lemma fl_240_11: "fl (240 / 11) = 6141272219141585 / 2 ^ 48"
proof -
  have "fl (240 / 11) = real_of_int (rne ((240 / 11) / (1 / 2 ^ 48))) * (1 / 2 ^ 48)"
    by (rule fl_at [OF pow2_neg [of 48]]) simp_all
  also have "rne ((240 / 11) / (1 / 2 ^ 48)) = 6141272219141585"
    by (simp add: rne_def Let_def)
  finally show ?thesis by simp
qed

lemma p53: "(2::real) ^ 53 = 9007199254740992" and p50: "(2::real) ^ 50 = 1125899906842624"
  by simp_all

lemma p49: "(2::real) ^ 49 = 562949953421312"
  by simp

text \<open>The values of the code for an image of 11 by 11 at scale 1.\<close>

lemma baseScale_11: "baseScale_f64 \<lparr> width = 11, height = 11 \<rparr> = 6141272219141585 / 2 ^ 48"
  by (simp add: baseScale_f64_def baseScale_f64_at_def CROP_SIZE_def fl_240_11 del: power_numeral)

lemma displayScale_11: "fl (6141272219141585 / 2 ^ 48) = 6141272219141585 / 2 ^ 48"
proof -
  have "fl (6141272219141585 / 2 ^ 48) = real_of_int 6141272219141585 * (1 / 2 ^ 48)"
    by (rule fl_exact [OF pow2_neg [of 48]]) simp_all
  then show ?thesis by simp
qed

lemma displayWidth_11: "fl (11 * (6141272219141585 / 2 ^ 48)) = 240 - 1 / 2 ^ 45"
proof -
  have "fl (11 * (6141272219141585 / 2 ^ 48))
      = real_of_int (rne (11 * (6141272219141585 / 2 ^ 48) / (1 / 2 ^ 45))) * (1 / 2 ^ 45)"
    by (rule fl_at [OF pow2_neg [of 45]]) simp_all
  also have "rne (11 * (6141272219141585 / 2 ^ 48) / (1 / 2 ^ 45)) = 8444249301319679"
    by (simp add: rne_def Let_def)
  finally show ?thesis by simp
qed

lemma fl_ulp_below: "fl (240 - 1 / 2 ^ 45 - 240) = - (1 / 2 ^ 45)"
proof -
  have "fl (240 - 1 / 2 ^ 45 - 240) = real_of_int (- (2 ^ 52)) * (1 / 2 ^ 97)"
    by (rule fl_exact [OF pow2_neg [of 97]]) simp_all
  then show ?thesis by simp
qed

lemma fl_half_ulp_below: "fl (- (1 / 2 ^ 45) / 2) = - (1 / 2 ^ 46)"
proof -
  have "fl (- (1 / 2 ^ 45) / 2) = real_of_int (- (2 ^ 52)) * (1 / 2 ^ 98)"
    by (rule fl_exact [OF pow2_neg [of 98]]) simp_all
  then show ?thesis by simp
qed

lemma fl_half_ulp: "fl (1 / 2 ^ 46) = 1 / 2 ^ 46"
proof -
  have "fl (1 / 2 ^ 46) = real_of_int (2 ^ 52) * (1 / 2 ^ 98)"
    by (rule fl_exact [OF pow2_neg [of 98]]) simp_all
  then show ?thesis by simp
qed

lemma halfWidth_11: "fl ((240 - 1 / 2 ^ 45) / 2) = 120 - 1 / 2 ^ 46"
proof -
  have "fl ((240 - 1 / 2 ^ 45) / 2) = real_of_int (120 * 2 ^ 46 - 1) * (1 / 2 ^ 46)"
    by (rule fl_exact [OF pow2_neg [of 46]]) simp_all
  then show ?thesis by simp
qed

lemma displayScale_f64_11:
  "fl (baseScale_f64 \<lparr> width = 11, height = 11 \<rparr> * 1) = 6141272219141585 / 2 ^ 48"
  by (simp only: baseScale_11 mult_1_right displayScale_11)

lemma displaySide_f64_11:
  "fl (real (width \<lparr> width = 11, height = 11 \<rparr>) * (6141272219141585 / 2 ^ 48)) = 240 - 1 / 2 ^ 45"
  "fl (real (height \<lparr> width = 11, height = 11 \<rparr>) * (6141272219141585 / 2 ^ 48)) = 240 - 1 / 2 ^ 45"
proof -
  have "real (width \<lparr> width = 11, height = 11 \<rparr>) = 11"
    and "real (height \<lparr> width = 11, height = 11 \<rparr>) = 11"
    by simp_all
  then show
    "fl (real (width \<lparr> width = 11, height = 11 \<rparr>) * (6141272219141585 / 2 ^ 48)) = 240 - 1 / 2 ^ 45"
    "fl (real (height \<lparr> width = 11, height = 11 \<rparr>) * (6141272219141585 / 2 ^ 48)) = 240 - 1 / 2 ^ 45"
    by (simp_all only: displayWidth_11)
qed

lemma imageEdge_f64_11:
  "fl (fl (fl (CROP_SIZE / 2) - fl ((240 - 1 / 2 ^ 45) / 2)) + x \<lparr> x = 0, y = 0 \<rparr>) = 1 / 2 ^ 46"
  "fl (fl (fl (CROP_SIZE / 2) - fl ((240 - 1 / 2 ^ 45) / 2)) + y \<lparr> x = 0, y = 0 \<rparr>) = 1 / 2 ^ 46"
proof -
  have "fl (CROP_SIZE / 2) = 120"
    by (simp add: CROP_SIZE_def fl_120)
  moreover have "120 - (120 - 1 / 2 ^ 46) = (1 / 2 ^ 46 :: real)"
    by simp
  moreover have "1 / 2 ^ 46 + x \<lparr> x = 0, y = 0 \<rparr> = 1 / 2 ^ 46"
    "1 / 2 ^ 46 + y \<lparr> x = 0, y = 0 \<rparr> = 1 / 2 ^ 46"
    by simp_all
  ultimately show
    "fl (fl (fl (CROP_SIZE / 2) - fl ((240 - 1 / 2 ^ 45) / 2)) + x \<lparr> x = 0, y = 0 \<rparr>) = 1 / 2 ^ 46"
    "fl (fl (fl (CROP_SIZE / 2) - fl ((240 - 1 / 2 ^ 45) / 2)) + y \<lparr> x = 0, y = 0 \<rparr>) = 1 / 2 ^ 46"
    by (simp_all only: halfWidth_11 fl_half_ulp)
qed

lemma clampOffset_11:
  "clampOffset_f64 \<lparr> width = 11, height = 11 \<rparr> \<lparr> x = 0, y = 0 \<rparr> 1 = \<lparr> x = 0, y = 0 \<rparr>"
  by (simp add: clampOffset_f64_def Let_def)

lemma sourceX_11:
  "fl (fl (0 - 1 / 2 ^ 46) / (6141272219141585 / 2 ^ 48)) = - (6605279453476728 / 2 ^ 103)"
proof -
  have a: "fl (0 - 1 / 2 ^ 46) = real_of_int (- (2 ^ 52)) * (1 / 2 ^ 98)"
    by (rule fl_exact [OF pow2_neg [of 98]]) simp_all
  have "fl (real_of_int (- (2 ^ 52)) * (1 / 2 ^ 98) / (6141272219141585 / 2 ^ 48))
      = real_of_int (rne (real_of_int (- (2 ^ 52)) * (1 / 2 ^ 98) / (6141272219141585 / 2 ^ 48)
                           / (1 / 2 ^ 103))) * (1 / 2 ^ 103)"
    by (rule fl_at [OF pow2_neg [of 103]]) simp_all
  also have "rne (real_of_int (- (2 ^ 52)) * (1 / 2 ^ 98) / (6141272219141585 / 2 ^ 48)
                           / (1 / 2 ^ 103)) = - 6605279453476728"
    by (simp add: rne_def Let_def)
  finally show ?thesis
    unfolding a by simp
qed

lemma sourceSize_11: "fl (CROP_SIZE / (6141272219141585 / 2 ^ 48)) = 11"
proof -
  have "fl (240 / (6141272219141585 / 2 ^ 48))
      = real_of_int (rne (240 / (6141272219141585 / 2 ^ 48) / (1 / 2 ^ 49))) * (1 / 2 ^ 49)"
    by (rule fl_at [OF pow2_neg [of 49]]) simp_all
  also have "rne (240 / (6141272219141585 / 2 ^ 48) / (1 / 2 ^ 49)) = 11 * 2 ^ 49"
    by (simp add: rne_def Let_def)
  finally show ?thesis
    by (simp add: CROP_SIZE_def)
qed

subsection \<open>The base scale in binary64\<close>

lemma baseScale_f64_lo:
  assumes "0 < width sz" and "0 < height sz"
  shows "F / real (width sz) - \<bar>F / real (width sz)\<bar> / 2 ^ 53 \<le> baseScale_f64_at F sz"
    and "F / real (height sz) - \<bar>F / real (height sz)\<bar> / 2 ^ 53 \<le> baseScale_f64_at F sz"
proof -
  have "fl (F / real (width sz)) \<le> baseScale_f64_at F sz"
    and "fl (F / real (height sz)) \<le> baseScale_f64_at F sz"
    using assms by (simp_all add: baseScale_f64_at_def)
  then show "F / real (width sz) - \<bar>F / real (width sz)\<bar> / 2 ^ 53 \<le> baseScale_f64_at F sz"
    and "F / real (height sz) - \<bar>F / real (height sz)\<bar> / 2 ^ 53 \<le> baseScale_f64_at F sz"
    using fl_lower [of "F / real (width sz)"] fl_lower [of "F / real (height sz)"]
    by linarith+
qed

text \<open>
  C3. For positive native width and height and every frame side \<open>F\<close>, the base scale is the
  larger of the two quotients \<open>F / w\<close> and \<open>F / h\<close>, each rounded, and multiplied by the
  shorter native side it is at least \<open>F - \<bar>F\<bar> / 2 ^ 53\<close>; the rounded product is at least
  \<open>F - F / 2 ^ 52\<close> when \<open>F\<close> is not negative. With an unknown (zero) dimension the base
  scale is 1. The component's \<open>baseScale\<close> is this at \<open>F = CROP_SIZE\<close>.
\<close>

theorem baseScale_f64_cover:
  "(0 < width sz \<and> 0 < height sz \<longrightarrow>
      baseScale_f64_at F sz = max (fl (F / real (width sz))) (fl (F / real (height sz)))
      \<and> F - \<bar>F\<bar> / 2 ^ 53 \<le> baseScale_f64_at F sz * real (min (width sz) (height sz))
      \<and> (0 \<le> F \<longrightarrow>
            F - F / 2 ^ 52 \<le> fl (baseScale_f64_at F sz * real (min (width sz) (height sz)))))
   \<and> (width sz = 0 \<or> height sz = 0 \<longrightarrow> baseScale_f64_at F sz = 1)
   \<and> baseScale_f64 sz = baseScale_f64_at CROP_SIZE sz"
proof (intro conjI impI)
  assume pos: "0 < width sz \<and> 0 < height sz"
  then show "baseScale_f64_at F sz = max (fl (F / real (width sz))) (fl (F / real (height sz)))"
    by (simp add: baseScale_f64_at_def)
  define M where "M = real (min (width sz) (height sz))"
  have M: "0 < M"
    using pos by (simp add: M_def)
  have "F / M - \<bar>F / M\<bar> / 2 ^ 53 \<le> baseScale_f64_at F sz"
    using baseScale_f64_lo [of sz F] pos by (simp add: M_def min_def)
  then have "(F / M - \<bar>F / M\<bar> / 2 ^ 53) * M \<le> baseScale_f64_at F sz * M"
    using M by (intro mult_right_mono) simp_all
  moreover have "(F / M - \<bar>F / M\<bar> / 2 ^ 53) * M = F - \<bar>F\<bar> / 2 ^ 53"
    using M by (simp add: field_simps)
  ultimately have e: "F - \<bar>F\<bar> / 2 ^ 53 \<le> baseScale_f64_at F sz * M"
    by simp
  then show "F - \<bar>F\<bar> / 2 ^ 53 \<le> baseScale_f64_at F sz * real (min (width sz) (height sz))"
    by (simp add: M_def)
  show "F - F / 2 ^ 52 \<le> fl (baseScale_f64_at F sz * real (min (width sz) (height sz)))"
    if "0 \<le> F"
  proof -
    have "0 \<le> F - \<bar>F\<bar> / 2 ^ 53"
      using that by (simp add: field_simps)
    then have "0 \<le> baseScale_f64_at F sz * M"
      using e by linarith
    then have "baseScale_f64_at F sz * M * (1 - 1 / 2 ^ 53) \<le> fl (baseScale_f64_at F sz * M)"
      by (rule fl_ge_scaled)
    moreover have "(F - \<bar>F\<bar> / 2 ^ 53) * (1 - 1 / 2 ^ 53) \<le> baseScale_f64_at F sz * M * (1 - 1 / 2 ^ 53)"
      using e by (intro mult_right_mono) simp_all
    moreover have "F - F / 2 ^ 52 \<le> (F - \<bar>F\<bar> / 2 ^ 53) * (1 - 1 / 2 ^ 53)"
      using that by (simp add: field_simps)
    ultimately show ?thesis
      unfolding M_def by linarith
  qed
next
  assume "width sz = 0 \<or> height sz = 0"
  then show "baseScale_f64_at F sz = 1" by (simp add: baseScale_f64_at_def)
next
  show "baseScale_f64 sz = baseScale_f64_at CROP_SIZE sz" by (simp add: baseScale_f64_def)
qed

theorem baseScale_f64_cover_witness:
  "baseScale_f64_at 240 \<lparr> width = 11, height = 11 \<rparr> = 6141272219141585 / 2 ^ 48
   \<and> 240 - 240 / 2 ^ 53 \<le> baseScale_f64_at 240 \<lparr> width = 11, height = 11 \<rparr> * 11
   \<and> baseScale_f64_at 240 \<lparr> width = 0, height = 480 \<rparr> = 1"
  using baseScale_f64_cover [of "\<lparr> width = 11, height = 11 \<rparr>" 240]
    baseScale_f64_cover [of "\<lparr> width = 0, height = 480 \<rparr>" 240]
  by (simp add: fl_240_11 del: power_numeral)

text \<open>
  The product can fall short of \<open>F\<close> itself: for an image of 11 by 11 and the frame of 240
  the quotient 240 / 11 is rounded down, and 11 times the base scale is below 240.
\<close>

theorem baseScale_f64_short:
  "baseScale_f64_at 240 \<lparr> width = 11, height = 11 \<rparr>
     * real (min (width \<lparr> width = 11, height = 11 \<rparr>) (height \<lparr> width = 11, height = 11 \<rparr>))
   < 240"
  by (simp add: baseScale_f64_at_def fl_240_11)

subsection \<open>The clamped offset in binary64\<close>

text \<open>
  What does not depend on the rounding holds in this reading as in the exact one: with an
  unknown dimension the offset is returned as it is, the result lies between minus the
  bound and the bound that the code computes, and clamping twice is clamping once.
\<close>

lemma clampOffset_f64_unknown_size:
  "width sz = 0 \<or> height sz = 0 \<Longrightarrow> clampOffset_f64 sz off s = off"
  by (simp add: clampOffset_f64_def)

lemma clampOffset_f64_range:
  assumes "0 < width sz" and "0 < height sz"
  shows "let displayScale = fl (baseScale_f64 sz * s);
             displayWidth = fl (real (width sz) * displayScale);
             displayHeight = fl (real (height sz) * displayScale);
             maxX = max 0 (fl (fl (displayWidth - CROP_SIZE) / 2));
             maxY = max 0 (fl (fl (displayHeight - CROP_SIZE) / 2));
             r = clampOffset_f64 sz off s
         in - maxX \<le> x r \<and> x r \<le> maxX \<and> - maxY \<le> y r \<and> y r \<le> maxY
            \<and> (- maxX \<le> x off \<and> x off \<le> maxX \<longrightarrow> x r = x off)
            \<and> (- maxY \<le> y off \<and> y off \<le> maxY \<longrightarrow> y r = y off)"
  using assms
  by (simp add: clampOffset_f64_def Let_def min_def max_def)

lemma clampOffset_f64_idempotent:
  "clampOffset_f64 sz (clampOffset_f64 sz off s) s = clampOffset_f64 sz off s"
  by (simp add: clampOffset_f64_def Let_def clamp_fixed)

lemma side_lo:
  fixes W b s :: real
  assumes W: "0 < W" and b: "240 / W - (240 / W) / 2 ^ 53 \<le> b" and s: "1 \<le> s"
  shows "240 - 720 / 2 ^ 53 \<le> fl (W * fl (b * s))"
proof -
  let ?c = "1 - 1 / 2 ^ 53 :: real"
  have c: "0 < ?c" by simp
  have q: "(240 / W) * ?c \<le> b"
    using b by (simp add: algebra_simps)
  then have b1: "240 * ?c \<le> W * b"
    using W by (simp add: field_simps)
  have "0 \<le> (240 / W) * ?c"
    using W by simp
  then have b0: "0 \<le> b"
    using q by linarith
  have "b * 1 \<le> b * s"
    using b0 s by (intro mult_left_mono) simp_all
  then have bs: "b \<le> b * s" "0 \<le> b * s"
    using b0 by simp_all
  have "b * ?c \<le> (b * s) * ?c"
    using bs(1) c by (intro mult_right_mono) simp_all
  also have "\<dots> \<le> fl (b * s)"
    using bs(2) by (rule fl_ge_scaled)
  finally have d: "b * ?c \<le> fl (b * s)" .
  have "(240 * ?c) * ?c \<le> (W * b) * ?c"
    using b1 c by (intro mult_right_mono) simp_all
  also have "\<dots> = W * (b * ?c)"
    by (simp only: mult.assoc)
  also have "\<dots> \<le> W * fl (b * s)"
    using d W by (intro mult_left_mono) simp_all
  finally have wd: "240 * ?c * ?c \<le> W * fl (b * s)" .
  have "0 \<le> 240 * ?c * ?c"
    by simp
  then have wd0: "0 \<le> W * fl (b * s)"
    using wd by linarith
  have "(240 * ?c * ?c) * ?c \<le> (W * fl (b * s)) * ?c"
    using wd c by (intro mult_right_mono) simp_all
  also have "\<dots> \<le> fl (W * fl (b * s))"
    using wd0 by (rule fl_ge_scaled)
  finally have "240 * ?c * ?c * ?c \<le> fl (W * fl (b * s))" .
  moreover have "240 - 720 / 2 ^ 53 \<le> 240 * ?c * ?c * ?c"
    by simp
  ultimately show ?thesis by linarith
qed

lemma display_f64_lo:
  assumes "0 < width sz" and "0 < height sz" and "1 \<le> s"
  shows "240 - 720 / 2 ^ 53 \<le> fl (real (width sz) * fl (baseScale_f64 sz * s))"
    and "240 - 720 / 2 ^ 53 \<le> fl (real (height sz) * fl (baseScale_f64 sz * s))"
proof -
  have w: "0 < real (width sz)" and h: "0 < real (height sz)"
    using assms(1,2) by simp_all
  have "240 / real (width sz) - (240 / real (width sz)) / 2 ^ 53 \<le> baseScale_f64 sz"
    and "240 / real (height sz) - (240 / real (height sz)) / 2 ^ 53 \<le> baseScale_f64 sz"
    using baseScale_f64_lo [OF assms(1,2), of 240] w h
    by (simp_all add: baseScale_f64_def CROP_SIZE_def)
  then show "240 - 720 / 2 ^ 53 \<le> fl (real (width sz) * fl (baseScale_f64 sz * s))"
    and "240 - 720 / 2 ^ 53 \<le> fl (real (height sz) * fl (baseScale_f64 sz * s))"
    using w h assms(3) by (simp_all only: side_lo)
qed

lemma axis_cover:
  fixes dw v :: real
  assumes lo: "240 - 720 / 2 ^ 53 \<le> dw"
    and m: "m = max 0 (fl (fl (dw - 240) / 2))"
    and v: "- m \<le> v" "v \<le> m"
    and il: "il = fl (fl (120 - fl (dw / 2)) + v)"
  shows "il \<le> dw / 2 ^ 50" and "240 - dw / 2 ^ 50 \<le> il + dw"
proof -
  define hw where "hw = fl (dw / 2)"
  define a where "a = fl (120 - hw)"
  define t where "t = fl (dw - 240)"
  define u where "u = fl (t / 2)"
  define T where "T = (dw + 240) + (dw + 240) / 2 ^ 53"
  define A where "A = (120 + hw) + (120 + hw) / 2 ^ 53"
  define U where "U = T / 2 + (T / 2) / 2 ^ 53"
  have dwpos: "0 < dw" using lo by simp
  have hw: "dw / 2 - (dw / 2) / 2 ^ 53 \<le> hw" "hw \<le> dw / 2 + (dw / 2) / 2 ^ 53"
    unfolding hw_def using dwpos by (intro fl_within, simp)+
  have hw0: "0 \<le> hw"
    unfolding hw_def using dwpos by (intro fl_nonneg) simp
  have "\<bar>120 - hw\<bar> \<le> 120 + hw"
    using hw0 by linarith
  then have a: "(120 - hw) - (120 + hw) / 2 ^ 53 \<le> a" "a \<le> (120 - hw) + (120 + hw) / 2 ^ 53"
    "\<bar>a\<bar> \<le> A"
    unfolding a_def A_def by (rule fl_within)+
  have "\<bar>dw - 240\<bar> \<le> dw + 240"
    using dwpos by linarith
  then have t: "(dw - 240) - (dw + 240) / 2 ^ 53 \<le> t" "t \<le> (dw - 240) + (dw + 240) / 2 ^ 53"
    "\<bar>t\<bar> \<le> T"
    unfolding t_def T_def by (rule fl_within)+
  have "\<bar>t / 2\<bar> \<le> T / 2"
    using t(3) by simp
  then have u: "t / 2 - (T / 2) / 2 ^ 53 \<le> u" "u \<le> t / 2 + (T / 2) / 2 ^ 53" "\<bar>u\<bar> \<le> U"
    unfolding u_def U_def by (rule fl_within)+
  have m': "m = max 0 u"
    by (simp add: m u_def t_def)
  have "\<bar>v\<bar> \<le> U"
    using v m' u(3) by (simp add: max_def split: if_splits)
  then have "\<bar>a + v\<bar> \<le> A + U"
    using a(3) by linarith
  then have i: "(a + v) - (A + U) / 2 ^ 53 \<le> il" "il \<le> (a + v) + (A + U) / 2 ^ 53"
    unfolding il a_def hw_def by (rule fl_within)+
  have T0: "0 \<le> T" "0 \<le> U" "0 \<le> A"
    using t(3) u(3) a(3) by linarith+
  show "il \<le> dw / 2 ^ 50"
  proof (cases "0 \<le> u")
    case True
    then have "v \<le> u" using v m' by simp
    then show ?thesis
      using lo hw a(1,2) t(1,2) u(1,2) i unfolding T_def A_def U_def p53 p50 by argo
  next
    case False
    then have "v = 0" using v m' by simp
    then show ?thesis
      using lo hw a(1,2) t(1,2) u(1,2) i False unfolding T_def A_def U_def p53 p50 by argo
  qed
  show "240 - dw / 2 ^ 50 \<le> il + dw"
  proof (cases "0 \<le> u")
    case True
    then have "- u \<le> v" using v m' by simp
    then show ?thesis
      using lo hw a(1,2) t(1,2) u(1,2) i unfolding T_def A_def U_def p53 p50 by argo
  next
    case False
    then have "v = 0" using v m' by simp
    then show ?thesis
      using lo hw a(1,2) t(1,2) u(1,2) i False unfolding T_def A_def U_def p53 p50 by argo
  qed
qed

text \<open>
  C1. With known positive native dimensions and a scale between 1 and 3, the offset that
  \<open>clampOffset\<close> returns for any candidate offset leaves the displayed image covering the
  frame on both axes up to rounding: at each edge the gap between the edge of the frame
  and the edge of the image is at most the displayed side divided by \<open>2 ^ 50\<close>.
\<close>

theorem clampOffset_f64_covers:
  assumes "0 < width sz" and "0 < height sz" and "1 \<le> s" and "s \<le> 3"
  shows "covers_f64 (1 / 2 ^ 50) sz s (clampOffset_f64 sz off s)"
proof -
  define dw where "dw = fl (real (width sz) * fl (baseScale_f64 sz * s))"
  define dh where "dh = fl (real (height sz) * fl (baseScale_f64 sz * s))"
  define mx where "mx = max 0 (fl (fl (dw - 240) / 2))"
  define my where "my = max 0 (fl (fl (dh - 240) / 2))"
  define vx where "vx = min mx (max (- mx) (x off))"
  define vy where "vy = min my (max (- my) (y off))"
  have c: "clampOffset_f64 sz off s = \<lparr> x = vx, y = vy \<rparr>"
    using assms(1,2)
    by (simp add: clampOffset_f64_def Let_def CROP_SIZE_def dw_def dh_def mx_def my_def
        vx_def vy_def)
  have lo: "240 - 720 / 2 ^ 53 \<le> dw" "240 - 720 / 2 ^ 53 \<le> dh"
    unfolding dw_def dh_def using display_f64_lo [OF assms(1-3)] by simp_all
  have vx: "- mx \<le> vx" "vx \<le> mx"
    by (simp_all add: vx_def mx_def)
  have vy: "- my \<le> vy" "vy \<le> my"
    by (simp_all add: vy_def my_def)
  have "fl (fl (120 - fl (dw / 2)) + vx) \<le> dw / 2 ^ 50"
    and "240 - dw / 2 ^ 50 \<le> fl (fl (120 - fl (dw / 2)) + vx) + dw"
    using axis_cover [OF lo(1) mx_def vx refl] by simp_all
  moreover have "fl (fl (120 - fl (dh / 2)) + vy) \<le> dh / 2 ^ 50"
    and "240 - dh / 2 ^ 50 \<le> fl (fl (120 - fl (dh / 2)) + vy) + dh"
    using axis_cover [OF lo(2) my_def vy refl] by simp_all
  ultimately show ?thesis
    unfolding covers_f64_def c Let_def
    by (simp add: CROP_SIZE_def fl_120 dw_def [symmetric] dh_def [symmetric] del: power_numeral)
qed

theorem clampOffset_f64_covers_witness:
  "covers_f64 (1 / 2 ^ 50) \<lparr> width = 240, height = 480 \<rparr> 1
     (clampOffset_f64 \<lparr> width = 240, height = 480 \<rparr> \<lparr> x = 50, y = - 200 \<rparr> 1)"
  using clampOffset_f64_covers [of "\<lparr> width = 240, height = 480 \<rparr>" 1 "\<lparr> x = 50, y = - 200 \<rparr>"]
  by simp

text \<open>
  Without the tolerance the statement fails: for an image of 11 by 11 at scale 1 the
  displayed side is the binary64 number below 240, the clamped offset is 0 and the left
  edge of the image is at \<open>1 / 2 ^ 46\<close>, inside the frame.
\<close>

theorem clampOffset_f64_gap:
  "\<not> covers_f64 0 \<lparr> width = 11, height = 11 \<rparr> 1
       (clampOffset_f64 \<lparr> width = 11, height = 11 \<rparr> \<lparr> x = 0, y = 0 \<rparr> 1)"
proof -
  have "covers_f64 0 \<lparr> width = 11, height = 11 \<rparr> 1 \<lparr> x = 0, y = 0 \<rparr>
      = ((1 / 2 ^ 46 :: real) \<le> 0 * (240 - 1 / 2 ^ 45)
         \<and> CROP_SIZE - 0 * (240 - 1 / 2 ^ 45) \<le> 1 / 2 ^ 46 + (240 - 1 / 2 ^ 45)
         \<and> (1 / 2 ^ 46 :: real) \<le> 0 * (240 - 1 / 2 ^ 45)
         \<and> CROP_SIZE - 0 * (240 - 1 / 2 ^ 45) \<le> 1 / 2 ^ 46 + (240 - 1 / 2 ^ 45))"
    unfolding covers_f64_def Let_def
    by (simp only: displayScale_f64_11 displaySide_f64_11 imageEdge_f64_11)
  then show ?thesis
    unfolding clampOffset_11 by simp
qed

subsection \<open>The source rectangle in binary64\<close>

lemma axis_source:
  fixes W ds dw il :: real
  assumes W: "0 < W" and ds: "0 < ds"
    and dwu: "dw \<le> (W * ds) + (W * ds) / 2 ^ 53"
    and dwl: "240 - 720 / 2 ^ 53 \<le> dw"
    and il1: "il \<le> dw / 2 ^ 50" and il2: "240 - dw / 2 ^ 50 \<le> il + dw"
  shows "- W / 2 ^ 49 \<le> fl (fl (0 - il) / ds)"
    and "fl (fl (0 - il) / ds) + fl (240 / ds) \<le> W + W / 2 ^ 49"
proof -
  define r where "r = dw / ds"
  define g where "g = 240 / ds"
  define j where "j = il / ds"
  define n where "n = fl (0 - il)"
  define q where "q = n / ds"
  define B where "B = (r + r / 2 ^ 50) + (r + r / 2 ^ 50) / 2 ^ 53"
  have dw0: "0 < dw" using dwl by simp
  have r0: "0 < r" and g0: "0 < g"
    using dw0 ds by (simp_all add: r_def g_def)
  have r1: "r \<le> W + W / 2 ^ 53"
  proof -
    have "(dw) / ds \<le> ((W * ds) + (W * ds) / 2 ^ 53) / ds"
      using dwu ds by (intro divide_right_mono) simp_all
    moreover have "(dw) / ds = r"
      using ds by (simp add: r_def g_def j_def q_def field_simps)
    moreover have "((W * ds) + (W * ds) / 2 ^ 53) / ds = W + W / 2 ^ 53"
      using ds by (simp add: r_def g_def j_def q_def field_simps)
    ultimately show ?thesis by simp
  qed
  have g1: "g - 3 * g / 2 ^ 53 \<le> r"
  proof -
    have "(240 - 720 / 2 ^ 53) / ds \<le> (dw) / ds"
      using dwl ds by (intro divide_right_mono) simp_all
    moreover have "(240 - 720 / 2 ^ 53) / ds = g - 3 * g / 2 ^ 53"
      using ds by (simp add: r_def g_def j_def q_def field_simps)
    moreover have "(dw) / ds = r"
      using ds by (simp add: r_def g_def j_def q_def field_simps)
    ultimately show ?thesis by simp
  qed
  have j1: "j \<le> r / 2 ^ 50"
  proof -
    have "(il) / ds \<le> (dw / 2 ^ 50) / ds"
      using il1 ds by (intro divide_right_mono) simp_all
    moreover have "(il) / ds = j"
      using ds by (simp add: r_def g_def j_def q_def field_simps)
    moreover have "(dw / 2 ^ 50) / ds = r / 2 ^ 50"
      using ds by (simp add: r_def g_def j_def q_def field_simps)
    ultimately show ?thesis by simp
  qed
  have j2: "g - r / 2 ^ 50 \<le> j + r"
  proof -
    have "(240 - dw / 2 ^ 50) / ds \<le> (il + dw) / ds"
      using il2 ds by (intro divide_right_mono) simp_all
    moreover have "(240 - dw / 2 ^ 50) / ds = g - r / 2 ^ 50"
      using ds by (simp add: r_def g_def j_def q_def field_simps)
    moreover have "(il + dw) / ds = j + r"
      using ds by (simp add: r_def g_def j_def q_def field_simps)
    ultimately show ?thesis by simp
  qed
  have "\<bar>0 - il\<bar> \<le> dw + dw / 2 ^ 50"
    using il1 il2 dw0 unfolding p50 by argo
  then have n: "(0 - il) - (dw + dw / 2 ^ 50) / 2 ^ 53 \<le> n" "n \<le> (0 - il) + (dw + dw / 2 ^ 50) / 2 ^ 53"
    unfolding n_def by (rule fl_within)+
  have q1: "- j - (r + r / 2 ^ 50) / 2 ^ 53 \<le> q"
  proof -
    have "((0 - il) - (dw + dw / 2 ^ 50) / 2 ^ 53) / ds \<le> (n) / ds"
      using n(1) ds by (intro divide_right_mono) simp_all
    moreover have "((0 - il) - (dw + dw / 2 ^ 50) / 2 ^ 53) / ds = - j - (r + r / 2 ^ 50) / 2 ^ 53"
      using ds by (simp add: r_def g_def j_def q_def field_simps)
    moreover have "(n) / ds = q"
      using ds by (simp add: r_def g_def j_def q_def field_simps)
    ultimately show ?thesis by simp
  qed
  have q2: "q \<le> - j + (r + r / 2 ^ 50) / 2 ^ 53"
  proof -
    have "(n) / ds \<le> ((0 - il) + (dw + dw / 2 ^ 50) / 2 ^ 53) / ds"
      using n(2) ds by (intro divide_right_mono) simp_all
    moreover have "(n) / ds = q"
      using ds by (simp add: r_def g_def j_def q_def field_simps)
    moreover have "((0 - il) + (dw + dw / 2 ^ 50) / 2 ^ 53) / ds = - j + (r + r / 2 ^ 50) / 2 ^ 53"
      using ds by (simp add: r_def g_def j_def q_def field_simps)
    ultimately show ?thesis by simp
  qed
  have "\<bar>q\<bar> \<le> B"
    using q1 q2 j1 j2 r0 g0 unfolding B_def p50 p53 by argo
  then have x: "q - B / 2 ^ 53 \<le> fl q" "fl q \<le> q + B / 2 ^ 53"
    by (rule fl_within)+
  have "\<bar>g\<bar> \<le> g" using g0 by simp
  then have s: "fl g \<le> g + g / 2 ^ 53"
    by (rule fl_within)
  show "- W / 2 ^ 49 \<le> fl (fl (0 - il) / ds)"
    using x(1) q1 j1 r1 r0 W unfolding q_def [symmetric] n_def [symmetric] B_def p49 p50 p53
    by argo
  show "fl (fl (0 - il) / ds) + fl (240 / ds) \<le> W + W / 2 ^ 49"
    using x(2) q2 j2 r1 r0 g0 g1 s W
    unfolding q_def [symmetric] n_def [symmetric] g_def [symmetric] B_def p49 p50 p53
    by argo
qed

lemma displayScale_f64_pos:
  assumes "0 < width sz" and "0 < height sz" and "1 \<le> s"
  shows "0 < fl (baseScale_f64 sz * s)"
proof -
  have "0 < fl (240 / real (width sz))"
    using assms(1) by (intro fl_pos) simp
  then have "0 < baseScale_f64 sz"
    using assms(1,2) by (simp add: baseScale_f64_def baseScale_f64_at_def CROP_SIZE_def max_def)
  then have "0 < baseScale_f64 sz * s"
    using assms(3) by (simp add: zero_less_mult_iff)
  then show ?thesis by (rule fl_pos)
qed

text \<open>
  C6. With known positive native dimensions, a scale between 1 and 3 and an offset that
  \<open>clampOffset\<close> leaves unchanged at that scale, the source rectangle of the export is a
  rectangle of finite numbers that lies inside the native image up to rounding: its origin
  is at least minus the native side divided by \<open>2 ^ 49\<close>, and origin plus side exceeds the
  native side by at most the native side divided by \<open>2 ^ 49\<close>, on both axes.
\<close>

theorem sourceRect_f64_in_bounds:
  assumes "0 < width sz" and "0 < height sz" and "1 \<le> s" and "s \<le> 3"
    and "clampOffset_f64 sz off s = off"
  shows "\<exists>sourceX sourceY sourceSize.
           sourceRect_f64 sz s off = (Some sourceX, Some sourceY, Some sourceSize)
           \<and> - real (width sz) / 2 ^ 49 \<le> sourceX
           \<and> - real (height sz) / 2 ^ 49 \<le> sourceY
           \<and> sourceX + sourceSize \<le> real (width sz) + real (width sz) / 2 ^ 49
           \<and> sourceY + sourceSize \<le> real (height sz) + real (height sz) / 2 ^ 49"
proof -
  define ds where "ds = fl (baseScale_f64 sz * s)"
  define dw where "dw = fl (real (width sz) * ds)"
  define dh where "dh = fl (real (height sz) * ds)"
  define mx where "mx = max 0 (fl (fl (dw - 240) / 2))"
  define my where "my = max 0 (fl (fl (dh - 240) / 2))"
  define il where "il = fl (fl (120 - fl (dw / 2)) + x off)"
  define it where "it = fl (fl (120 - fl (dh / 2)) + y off)"
  have ds: "0 < ds"
    unfolding ds_def using assms(1-3) by (rule displayScale_f64_pos)
  have W: "0 < real (width sz)" and H: "0 < real (height sz)"
    using assms(1,2) by simp_all
  have lo: "240 - 720 / 2 ^ 53 \<le> dw" "240 - 720 / 2 ^ 53 \<le> dh"
    unfolding dw_def dh_def ds_def using display_f64_lo [OF assms(1-3)] by simp_all
  have "0 \<le> real (width sz) * ds" "0 \<le> real (height sz) * ds"
    using ds by simp_all
  then have up: "dw \<le> real (width sz) * ds + real (width sz) * ds / 2 ^ 53"
    "dh \<le> real (height sz) * ds + real (height sz) * ds / 2 ^ 53"
    unfolding dw_def dh_def using fl_upper [of "real (width sz) * ds"]
      fl_upper [of "real (height sz) * ds"] by simp_all
  have "x (clampOffset_f64 sz off s) = x off" "y (clampOffset_f64 sz off s) = y off"
    using assms(5) by simp_all
  then have "min mx (max (- mx) (x off)) = x off" "min my (max (- my) (y off)) = y off"
    using assms(1,2)
    by (simp_all add: clampOffset_f64_def Let_def CROP_SIZE_def mx_def my_def dw_def dh_def ds_def)
  then have "\<bar>x off\<bar> \<le> mx" "\<bar>y off\<bar> \<le> my"
    by (simp_all add: clamp_fixed_abs mx_def my_def)
  then have vx: "- mx \<le> x off" "x off \<le> mx" and vy: "- my \<le> y off" "y off \<le> my"
    by linarith+
  have ix: "il \<le> dw / 2 ^ 50" "240 - dw / 2 ^ 50 \<le> il + dw"
    using axis_cover [OF lo(1) mx_def vx il_def] by simp_all
  have iy: "it \<le> dh / 2 ^ 50" "240 - dh / 2 ^ 50 \<le> it + dh"
    using axis_cover [OF lo(2) my_def vy it_def] by simp_all
  have sx: "- real (width sz) / 2 ^ 49 \<le> fl (fl (0 - il) / ds)"
    "fl (fl (0 - il) / ds) + fl (240 / ds) \<le> real (width sz) + real (width sz) / 2 ^ 49"
    using axis_source [OF W ds up(1) lo(1) ix] by simp_all
  have sy: "- real (height sz) / 2 ^ 49 \<le> fl (fl (0 - it) / ds)"
    "fl (fl (0 - it) / ds) + fl (240 / ds) \<le> real (height sz) + real (height sz) / 2 ^ 49"
    using axis_source [OF H ds up(2) lo(2) iy] by simp_all
  have "sourceRect_f64 sz s off
      = (Some (fl (fl (0 - il) / ds)), Some (fl (fl (0 - it) / ds)), Some (fl (240 / ds)))"
    using ds
    by (simp add: sourceRect_f64_def js_div_f64_def Let_def CROP_SIZE_def fl_120
        ds_def [symmetric] dw_def [symmetric] dh_def [symmetric] il_def it_def
        del: power_numeral)
  then show ?thesis
    using sx sy by blast
qed

theorem sourceRect_f64_in_bounds_witness:
  "\<exists>sourceX sourceY sourceSize.
     sourceRect_f64 \<lparr> width = 11, height = 11 \<rparr> 1 \<lparr> x = 0, y = 0 \<rparr>
       = (Some sourceX, Some sourceY, Some sourceSize)
     \<and> - 11 / 2 ^ 49 \<le> sourceX \<and> - 11 / 2 ^ 49 \<le> sourceY
     \<and> sourceX + sourceSize \<le> 11 + 11 / 2 ^ 49
     \<and> sourceY + sourceSize \<le> 11 + 11 / 2 ^ 49"
  using sourceRect_f64_in_bounds [of "\<lparr> width = 11, height = 11 \<rparr>" 1 "\<lparr> x = 0, y = 0 \<rparr>"]
  by (simp add: clampOffset_11 del: power_numeral)

text \<open>
  Without the tolerance the statement fails: for an image of 11 by 11 at scale 1 and the
  offset 0, which \<open>clampOffset\<close> leaves unchanged, the origin of the source rectangle is
  negative.
\<close>

theorem sourceRect_f64_outside:
  "clampOffset_f64 \<lparr> width = 11, height = 11 \<rparr> \<lparr> x = 0, y = 0 \<rparr> 1 = \<lparr> x = 0, y = 0 \<rparr>
   \<and> sourceRect_f64 \<lparr> width = 11, height = 11 \<rparr> 1 \<lparr> x = 0, y = 0 \<rparr>
       = (Some (- (6605279453476728 / 2 ^ 103)), Some (- (6605279453476728 / 2 ^ 103)), Some 11)
   \<and> - (6605279453476728 / 2 ^ 103) < (0 :: real)"
proof -
  have z: "(6141272219141585 / 2 ^ 48 :: real) \<noteq> 0"
    by simp
  have e: "0 - 1 / 2 ^ 46 = (0 - 1 / 2 ^ 46 :: real)" ..
  have "sourceRect_f64 \<lparr> width = 11, height = 11 \<rparr> 1 \<lparr> x = 0, y = 0 \<rparr>
       = (js_div_f64 (fl (0 - 1 / 2 ^ 46)) (6141272219141585 / 2 ^ 48),
          js_div_f64 (fl (0 - 1 / 2 ^ 46)) (6141272219141585 / 2 ^ 48),
          js_div_f64 CROP_SIZE (6141272219141585 / 2 ^ 48))"
    unfolding sourceRect_f64_def Let_def
    by (simp only: displayScale_f64_11 displaySide_f64_11 imageEdge_f64_11)
  also have "\<dots> = (Some (- (6605279453476728 / 2 ^ 103)), Some (- (6605279453476728 / 2 ^ 103)),
                    Some 11)"
    unfolding js_div_f64_def by (simp only: z if_False sourceX_11 sourceSize_11)
  finally show ?thesis
    using clampOffset_11 by simp
qed

end
